theory Spec2Isabelle
  imports Complex_Main
begin

section \<open>Python and NumPy primitives\<close>

text \<open>
  The programs compute on Python floats and NumPy float arrays. Numbers are modelled as
  \<^typ>\<open>real\<close>: arithmetic is exact, so rounding, overflow to infinity and NaN are outside
  the model. One-dimensional arrays are lists, the two-dimensional field is a list of rows.
  Every exception that the modelled statements can raise is a value of \<open>py_error\<close>.
\<close>

datatype py_error = ZeroDivisionError | ValueError | IndexError | OverflowError

definition py_div :: "real \<Rightarrow> real \<Rightarrow> py_error + real" where
  \<comment> \<open>\<open>a / b\<close> on Python numbers\<close>
  "py_div a b = (if b = 0 then Inl ZeroDivisionError else Inr (a / b))"

definition linspace_pts :: "real \<Rightarrow> real \<Rightarrow> int \<Rightarrow> real list" where
  \<comment> \<open>the samples of \<open>np.linspace(start, stop, num)\<close>: \<open>arange(num) * step + start\<close> with
      \<open>step = (stop - start) / (num - 1)\<close>; a single sample is \<open>start\<close>\<close>
  "linspace_pts start stop num =
     map (\<lambda>i. if num = 1 then start
               else real i * ((stop - start) / real_of_int (num - 1)) + start)
         [0..<nat num]"

definition linspace :: "real \<Rightarrow> real \<Rightarrow> int \<Rightarrow> py_error + real list" where
  "linspace start stop num =
     (if num < 0 then Inl ValueError else Inr (linspace_pts start stop num))"

definition np_zeros :: "int \<Rightarrow> int \<Rightarrow> py_error + real list list" where
  \<comment> \<open>\<open>np.zeros((rows, cols))\<close>\<close>
  "np_zeros rows cols =
     (if rows < 0 \<or> cols < 0 then Inl ValueError
      else Inr (replicate (nat rows) (replicate (nat cols) 0)))"

definition vadd :: "real list \<Rightarrow> real list \<Rightarrow> real list" where
  "vadd xs ys = map2 (+) xs ys"

definition vsub :: "real list \<Rightarrow> real list \<Rightarrow> real list" where
  "vsub xs ys = map2 (-) xs ys"

definition smul :: "real \<Rightarrow> real list \<Rightarrow> real list" where
  "smul c xs = map (\<lambda>x. c * x) xs"

definition mid :: "'a list \<Rightarrow> 'a list" where
  \<comment> \<open>the slice \<open>U[1:-1]\<close>\<close>
  "mid U = butlast (tl U)"

definition set_mid :: "'a list \<Rightarrow> 'a list \<Rightarrow> 'a list" where
  \<comment> \<open>the slice assignment \<open>U[1:-1] = V\<close>, \<open>V\<close> as long as the slice\<close>
  "set_mid U V = (if length U < 2 then U else take 1 U @ V @ drop (length U - 1) U)"

definition stencil :: "real \<Rightarrow> real list \<Rightarrow> real list" where
  \<comment> \<open>\<open>U[1:-1] + r * (U[2:] - 2 * U[1:-1] + U[:-2])\<close>\<close>
  "stencil r U =
     vadd (mid U) (smul r (vadd (vsub (drop 2 U) (smul 2 (mid U))) (take (length U - 2) U)))"

definition set_ends :: "'a \<Rightarrow> 'a \<Rightarrow> 'a list \<Rightarrow> py_error + 'a list" where
  \<comment> \<open>\<open>U[0] = a; U[-1] = b\<close>\<close>
  "set_ends a b U =
     (if U = [] then Inl IndexError else Inr ((U[0 := a])[length U - 1 := b]))"

definition assign_row :: "'a list list \<Rightarrow> nat \<Rightarrow> 'a list \<Rightarrow> py_error + 'a list list" where
  \<comment> \<open>\<open>M[i] = v\<close> (also \<open>M[i, :] = v\<close>): the row index is checked first, then \<open>v\<close> is
      broadcast to the row, which takes a \<open>v\<close> of the row's length or of length one\<close>
  "assign_row M i v =
     (if length M \<le> i then Inl IndexError
      else if length v = length (M ! i) then Inr (M[i := v])
      else if length v = 1 then Inr (M[i := replicate (length (M ! i)) (hd v)])
      else Inl ValueError)"

section \<open>heat\_eq\_fr.py\<close>

definition initial_profile :: "real \<Rightarrow> real \<Rightarrow> real \<Rightarrow> real list \<Rightarrow> real list" where
  \<comment> \<open>the module globals \<open>A\<close>, \<open>B\<close>, \<open>L\<close> are the first three arguments\<close>
  "initial_profile A B L x =
     (let scale = 1 / 10 in map (\<lambda>xi. A - B * tanh ((xi - L / 2) / scale)) x)"

definition step_fr :: "real \<Rightarrow> real \<Rightarrow> real \<Rightarrow> real list \<Rightarrow> py_error + real list" where
  \<comment> \<open>the body of the loop up to the boundary assignments: \<open>U_new\<close> from \<open>U\<close>\<close>
  "step_fr alpha U1 U2 U = set_ends U1 U2 (set_mid U (stencil alpha U))"

fun loop_fr ::
  "nat list \<Rightarrow> real \<Rightarrow> real \<Rightarrow> real \<Rightarrow> real list \<times> real list list
     \<Rightarrow> py_error + real list \<times> real list list" where
  "loop_fr [] alpha U1 U2 st = Inr st"
| "loop_fr (n # ns) alpha U1 U2 (U, U_all) =
     (case step_fr alpha U1 U2 U of
        Inl e \<Rightarrow> Inl e
      | Inr U_new \<Rightarrow>
          (case assign_row U_all (n + 1) U_new of
             Inl e \<Rightarrow> Inl e
           | Inr U_all' \<Rightarrow> loop_fr ns alpha U1 U2 (U_new, U_all')))"

definition explicit_heat ::
  "real list \<Rightarrow> int \<Rightarrow> int \<Rightarrow> real \<Rightarrow> real \<Rightarrow> real \<Rightarrow> real \<Rightarrow> real
     \<Rightarrow> py_error + real list list \<times> real \<times> real" where
  "explicit_heat U_init Nx Nt L T D U1 U2 =
     (case py_div L (real_of_int (Nx - 1)) of
        Inl e \<Rightarrow> Inl e
      | Inr dx \<Rightarrow>
     (case py_div T (real_of_int Nt) of
        Inl e \<Rightarrow> Inl e
      | Inr dt \<Rightarrow>
     (case py_div (D * dt) (dx ^ 2) of
        Inl e \<Rightarrow> Inl e
      | Inr alpha \<Rightarrow>
     (case np_zeros (Nt + 1) Nx of
        Inl e \<Rightarrow> Inl e
      | Inr Z \<Rightarrow>
     (case assign_row Z 0 U_init of
        Inl e \<Rightarrow> Inl e
      | Inr U_all0 \<Rightarrow>
     (case loop_fr [0..<nat Nt] alpha U1 U2 (U_init, U_all0) of
        Inl e \<Rightarrow> Inl e
      | Inr (U, U_all) \<Rightarrow> Inr (U_all, alpha, dt)))))))"

section \<open>heat\_equation.py\<close>

definition initialize_conditions ::
  "int \<Rightarrow> real \<Rightarrow> py_error + real list \<times> real list \<times> real \<times> real" where
  "initialize_conditions Nx L =
     (let A = 10; B = 10; c = 0 in
      case linspace 0 L Nx of
        Inl e \<Rightarrow> Inl e
      | Inr x \<Rightarrow> Inr (x, map (\<lambda>xi. A - B * tanh (c - xi)) x, A, B))"

definition check_stability ::
  "real \<Rightarrow> real \<Rightarrow> int \<Rightarrow> int \<Rightarrow> real \<Rightarrow> py_error + bool \<times> real" where
  "check_stability D T Nt Nx L =
     (case py_div T (real_of_int Nt) of
        Inl e \<Rightarrow> Inl e
      | Inr dt \<Rightarrow>
     (case py_div L (real_of_int Nx) of
        Inl e \<Rightarrow> Inl e
      | Inr dx \<Rightarrow>
     (case py_div (D * dt) (dx ^ 2) of
        Inl e \<Rightarrow> Inl e
      | Inr stability_factor \<Rightarrow> Inr (stability_factor \<le> 5 / 10, stability_factor))))"

definition step_eq ::
  "real \<Rightarrow> real \<Rightarrow> real \<Rightarrow> real list list \<Rightarrow> nat \<Rightarrow> py_error + real list list" where
  \<comment> \<open>the body of the loop: row \<open>n + 1\<close> of \<open>U\<close> is written in place from row \<open>n\<close>\<close>
  "step_eq r a b U n =
     (if length U \<le> n + 1 then Inl IndexError
      else case set_ends a b (set_mid (U ! (n + 1)) (stencil r (U ! n))) of
             Inl e \<Rightarrow> Inl e
           | Inr row \<Rightarrow> Inr (U[n + 1 := row]))"

fun loop_eq ::
  "nat list \<Rightarrow> real \<Rightarrow> real \<Rightarrow> real \<Rightarrow> real list list \<Rightarrow> py_error + real list list" where
  "loop_eq [] r a b U = Inr U"
| "loop_eq (n # ns) r a b U =
     (case step_eq r a b U n of
        Inl e \<Rightarrow> Inl e
      | Inr U' \<Rightarrow> loop_eq ns r a b U')"

definition solve_heat_equation_euler ::
  "real \<Rightarrow> real \<Rightarrow> real \<Rightarrow> int \<Rightarrow> int
     \<Rightarrow> py_error + real list \<times> real list \<times> real list list" where
  "solve_heat_equation_euler L T D Nt Nx =
     (case initialize_conditions Nx L of
        Inl e \<Rightarrow> Inl e
      | Inr (x, U0, A, B) \<Rightarrow>
     (case py_div T (real_of_int Nt) of
        Inl e \<Rightarrow> Inl e
      | Inr dt \<Rightarrow>
     (case py_div L (real_of_int Nx) of
        Inl e \<Rightarrow> Inl e
      | Inr dx \<Rightarrow>
     (case check_stability D T Nt Nx L of
        Inl e \<Rightarrow> Inl e
      | Inr (is_stable, stability_factor) \<Rightarrow>
     (case np_zeros (Nt + 1) Nx of
        Inl e \<Rightarrow> Inl e
      | Inr Z \<Rightarrow>
     (case assign_row Z 0 U0 of
        Inl e \<Rightarrow> Inl e
      | Inr U_0 \<Rightarrow>
     (case py_div (D * dt) (dx ^ 2) of
        Inl e \<Rightarrow> Inl e
      | Inr r \<Rightarrow>
     (case loop_eq [0..<nat Nt] r (A + B) (A - B) U_0 of
        Inl e \<Rightarrow> Inl e
      | Inr U \<Rightarrow>
     (case linspace 0 T (Nt + 1) of
        Inl e \<Rightarrow> Inl e
      | Inr t \<Rightarrow> Inr (x, t, U))))))))))"

section \<open>explicit\_heat on a store of arrays\<close>

text \<open>
  \<open>explicit_heat\<close> once more, with the arrays as objects of a store: an address is an
  index into the store, \<open>.copy()\<close> and \<open>np.zeros\<close> allocate a new object, an indexed
  assignment overwrites the object at the address, and a plain assignment to a variable
  (\<open>U = U_new\<close>) rebinds the address the variable holds.
\<close>

datatype ndarray = Arr1 "real list" | Arr2 "real list list"

type_synonym store = "ndarray list"

definition alloc :: "store \<Rightarrow> ndarray \<Rightarrow> store \<times> nat" where
  "alloc h v = (h @ [v], length h)"

definition fetch1 :: "store \<Rightarrow> nat \<Rightarrow> py_error + real list" where
  \<comment> \<open>the one-dimensional array at an address; the model covers no other argument\<close>
  "fetch1 h a =
     (if length h \<le> a then Inl ValueError
      else case h ! a of Arr1 xs \<Rightarrow> Inr xs | Arr2 M \<Rightarrow> Inl ValueError)"

definition fetch2 :: "store \<Rightarrow> nat \<Rightarrow> py_error + real list list" where
  "fetch2 h a =
     (if length h \<le> a then Inl ValueError
      else case h ! a of Arr1 xs \<Rightarrow> Inl ValueError | Arr2 M \<Rightarrow> Inr M)"

definition copy1 :: "store \<Rightarrow> nat \<Rightarrow> py_error + store \<times> nat" where
  \<comment> \<open>\<open>U.copy()\<close>\<close>
  "copy1 h a = (case fetch1 h a of Inl e \<Rightarrow> Inl e | Inr xs \<Rightarrow> Inr (alloc h (Arr1 xs)))"

definition store_row :: "store \<Rightarrow> nat \<Rightarrow> nat \<Rightarrow> nat \<Rightarrow> py_error + store" where
  \<comment> \<open>\<open>U_all[i] = V\<close> for the arrays at the addresses \<open>ua\<close> and \<open>v\<close>\<close>
  "store_row h ua i v =
     (case fetch2 h ua of
        Inl e \<Rightarrow> Inl e
      | Inr M \<Rightarrow>
     (case fetch1 h v of
        Inl e \<Rightarrow> Inl e
      | Inr V \<Rightarrow>
     (case assign_row M i V of
        Inl e \<Rightarrow> Inl e
      | Inr M' \<Rightarrow> Inr (h[ua := Arr2 M']))))"

definition step_st :: "real \<Rightarrow> real \<Rightarrow> real \<Rightarrow> store \<Rightarrow> nat \<Rightarrow> py_error + store \<times> nat" where
  \<comment> \<open>\<open>U_new = U.copy()\<close>, the slice assignment and the two boundary assignments, all
      three written to the object \<open>U_new\<close>\<close>
  "step_st alpha U1 U2 h u =
     (case copy1 h u of
        Inl e \<Rightarrow> Inl e
      | Inr (h1, un) \<Rightarrow>
     (case fetch1 h1 u of
        Inl e \<Rightarrow> Inl e
      | Inr U \<Rightarrow>
     (case fetch1 h1 un of
        Inl e \<Rightarrow> Inl e
      | Inr U_new \<Rightarrow>
     (let h2 = h1[un := Arr1 (set_mid U_new (stencil alpha U))] in
      case fetch1 h2 un of
        Inl e \<Rightarrow> Inl e
      | Inr U_new' \<Rightarrow>
     (case set_ends U1 U2 U_new' of
        Inl e \<Rightarrow> Inl e
      | Inr U_new'' \<Rightarrow> Inr (h2[un := Arr1 U_new''], un))))))"

fun loop_st ::
  "nat list \<Rightarrow> real \<Rightarrow> real \<Rightarrow> real \<Rightarrow> nat \<Rightarrow> store \<times> nat \<Rightarrow> py_error + store \<times> nat" where
  "loop_st [] alpha U1 U2 ua st = Inr st"
| "loop_st (n # ns) alpha U1 U2 ua (h, u) =
     (case step_st alpha U1 U2 h u of
        Inl e \<Rightarrow> Inl e
      | Inr (h', un) \<Rightarrow>
          (case store_row h' ua (n + 1) un of
             Inl e \<Rightarrow> Inl e
           | Inr h'' \<Rightarrow> loop_st ns alpha U1 U2 ua (h'', un)))"

definition explicit_heat_st ::
  "store \<Rightarrow> nat \<Rightarrow> int \<Rightarrow> int \<Rightarrow> real \<Rightarrow> real \<Rightarrow> real \<Rightarrow> real \<Rightarrow> real
     \<Rightarrow> py_error + store \<times> nat \<times> real \<times> real" where
  \<comment> \<open>\<open>a\<close> is the address of the argument \<open>U_init\<close>; the result is the final store with
      the address of \<open>U_all\<close>, \<open>alpha\<close> and \<open>dt\<close>\<close>
  "explicit_heat_st h a Nx Nt L T D U1 U2 =
     (case py_div L (real_of_int (Nx - 1)) of
        Inl e \<Rightarrow> Inl e
      | Inr dx \<Rightarrow>
     (case py_div T (real_of_int Nt) of
        Inl e \<Rightarrow> Inl e
      | Inr dt \<Rightarrow>
     (case py_div (D * dt) (dx ^ 2) of
        Inl e \<Rightarrow> Inl e
      | Inr alpha \<Rightarrow>
     (case np_zeros (Nt + 1) Nx of
        Inl e \<Rightarrow> Inl e
      | Inr Z \<Rightarrow>
     (case alloc h (Arr2 Z) of (h1, ua) \<Rightarrow>
     (case copy1 h1 a of
        Inl e \<Rightarrow> Inl e
      | Inr (h2, tmp) \<Rightarrow>
     (case store_row h2 ua 0 tmp of
        Inl e \<Rightarrow> Inl e
      | Inr h3 \<Rightarrow>
     (case copy1 h3 a of
        Inl e \<Rightarrow> Inl e
      | Inr (h4, u) \<Rightarrow>
     (case loop_st [0..<nat Nt] alpha U1 U2 ua (h4, u) of
        Inl e \<Rightarrow> Inl e
      | Inr (h5, u') \<Rightarrow> Inr (h5, ua, alpha, dt))))))))))"

section \<open>Double-precision arithmetic\<close>

text \<open>
  Where a property depends on rounding or on the range of a Python float, the programs are
  modelled once more on IEEE 754 binary64 values. A \<open>pyfloat\<close> is a finite double, given by
  the real number it stands for, or one of the non-finite values. The two zeros are not
  told apart: the programs divide only in Python scalars, where either zero raises, and
  nothing else they compute depends on the sign of a zero. Every arithmetic operation is
  the exact result rounded to the nearest double, ties to even (\<open>fl_round\<close>): 53
  significant bits, the smallest unit \<open>2\<^sup>-\<^sup>1\<^sup>0\<^sup>7\<^sup>4\<close>, and infinity from \<open>2\<^sup>1\<^sup>0\<^sup>2\<^sup>4\<close> on.
\<close>

datatype pyfloat = Fin real | PosInf | NegInf | NaN

definition ulp_exp :: "real \<Rightarrow> int" where
  \<comment> \<open>the exponent of the unit in the last place of the doubles around \<open>x\<close>\<close>
  "ulp_exp x = max (\<lfloor>log 2 \<bar>x\<bar>\<rfloor> - 52) (- 1074)"

definition rne :: "real \<Rightarrow> int" where
  \<comment> \<open>the nearest integer, a tie to the even one\<close>
  "rne y =
     (let f = \<lfloor>y\<rfloor> in
      if y - of_int f < 1 / 2 then f
      else if 1 / 2 < y - of_int f then f + 1
      else if even f then f else f + 1)"

definition rnd :: "real \<Rightarrow> real" where
  "rnd x = (if x = 0 then 0 else of_int (rne (x / 2 powi ulp_exp x)) * 2 powi ulp_exp x)"

definition fl_round :: "real \<Rightarrow> pyfloat" where
  "fl_round x =
     (let y = rnd x in
      if 2 ^ 1024 \<le> y then PosInf else if y \<le> - (2 ^ 1024) then NegInf else Fin y)"

fun fneg :: "pyfloat \<Rightarrow> pyfloat" where
  "fneg (Fin a) = Fin (- a)"
| "fneg PosInf = NegInf"
| "fneg NegInf = PosInf"
| "fneg NaN = NaN"

fun fadd :: "pyfloat \<Rightarrow> pyfloat \<Rightarrow> pyfloat" where
  "fadd (Fin a) (Fin b) = fl_round (a + b)"
| "fadd NaN b = NaN"
| "fadd a NaN = NaN"
| "fadd PosInf NegInf = NaN"
| "fadd NegInf PosInf = NaN"
| "fadd PosInf b = PosInf"
| "fadd a PosInf = PosInf"
| "fadd NegInf b = NegInf"
| "fadd a NegInf = NegInf"

definition fsub :: "pyfloat \<Rightarrow> pyfloat \<Rightarrow> pyfloat" where
  "fsub a b = fadd a (fneg b)"

fun fmul :: "pyfloat \<Rightarrow> pyfloat \<Rightarrow> pyfloat" where
  "fmul (Fin a) (Fin b) = fl_round (a * b)"
| "fmul NaN b = NaN"
| "fmul a NaN = NaN"
| "fmul (Fin a) PosInf = (if a = 0 then NaN else if 0 < a then PosInf else NegInf)"
| "fmul (Fin a) NegInf = (if a = 0 then NaN else if 0 < a then NegInf else PosInf)"
| "fmul PosInf (Fin b) = (if b = 0 then NaN else if 0 < b then PosInf else NegInf)"
| "fmul NegInf (Fin b) = (if b = 0 then NaN else if 0 < b then NegInf else PosInf)"
| "fmul PosInf PosInf = PosInf"
| "fmul NegInf NegInf = PosInf"
| "fmul PosInf NegInf = NegInf"
| "fmul NegInf PosInf = NegInf"

fun fdiv :: "pyfloat \<Rightarrow> pyfloat \<Rightarrow> pyfloat" where
  \<comment> \<open>the quotient by a divisor that is not zero\<close>
  "fdiv (Fin a) (Fin b) = fl_round (a / b)"
| "fdiv NaN b = NaN"
| "fdiv a NaN = NaN"
| "fdiv (Fin a) PosInf = Fin 0"
| "fdiv (Fin a) NegInf = Fin 0"
| "fdiv PosInf (Fin b) = (if 0 < b then PosInf else NegInf)"
| "fdiv NegInf (Fin b) = (if 0 < b then NegInf else PosInf)"
| "fdiv PosInf b = NaN"
| "fdiv NegInf b = NaN"

fun fle :: "pyfloat \<Rightarrow> pyfloat \<Rightarrow> bool" where
  \<comment> \<open>\<open>a <= b\<close>\<close>
  "fle (Fin a) (Fin b) = (a \<le> b)"
| "fle NaN b = False"
| "fle a NaN = False"
| "fle NegInf b = True"
| "fle a PosInf = True"
| "fle PosInf b = False"
| "fle a NegInf = False"

fun flt :: "pyfloat \<Rightarrow> pyfloat \<Rightarrow> bool" where
  \<comment> \<open>\<open>a < b\<close>\<close>
  "flt (Fin a) (Fin b) = (a < b)"
| "flt NaN b = False"
| "flt a NaN = False"
| "flt PosInf b = False"
| "flt a NegInf = False"
| "flt NegInf b = True"
| "flt a PosInf = True"

definition py_float_of_int :: "int \<Rightarrow> py_error + pyfloat" where
  \<comment> \<open>the conversion of a Python int that meets a float in an operation\<close>
  "py_float_of_int n =
     (case fl_round (real_of_int n) of Fin y \<Rightarrow> Inr (Fin y) | _ \<Rightarrow> Inl OverflowError)"

definition py_fdiv :: "pyfloat \<Rightarrow> pyfloat \<Rightarrow> py_error + pyfloat" where
  \<comment> \<open>\<open>a / b\<close> on Python floats\<close>
  "py_fdiv a b = (if b = Fin 0 then Inl ZeroDivisionError else Inr (fdiv a b))"

definition py_fdiv_int :: "pyfloat \<Rightarrow> int \<Rightarrow> py_error + pyfloat" where
  \<comment> \<open>\<open>a / n\<close> for a Python float and a Python int\<close>
  "py_fdiv_int a n =
     (case py_float_of_int n of Inl e \<Rightarrow> Inl e | Inr b \<Rightarrow> py_fdiv a b)"

definition py_fpow2 :: "pyfloat \<Rightarrow> py_error + pyfloat" where
  \<comment> \<open>\<open>a ** 2\<close> on a Python float: the rounded square; a finite operand whose square
      overflows raises, one whose square underflows gives zero\<close>
  "py_fpow2 a =
     (case a of
        Fin x \<Rightarrow> (case fl_round (x * x) of Fin y \<Rightarrow> Inr (Fin y) | _ \<Rightarrow> Inl OverflowError)
      | NaN \<Rightarrow> Inr NaN
      | _ \<Rightarrow> Inr PosInf)"

definition py_ceil_int :: "pyfloat \<Rightarrow> py_error + int" where
  \<comment> \<open>\<open>int(np.ceil(a))\<close>\<close>
  "py_ceil_int a =
     (case a of
        Fin x \<Rightarrow> Inr \<lceil>x\<rceil>
      | NaN \<Rightarrow> Inl ValueError
      | _ \<Rightarrow> Inl OverflowError)"

section \<open>heat\_eq\_fr.py in double precision\<close>

definition vadd_fl :: "pyfloat list \<Rightarrow> pyfloat list \<Rightarrow> pyfloat list" where
  "vadd_fl xs ys = map2 fadd xs ys"

definition vsub_fl :: "pyfloat list \<Rightarrow> pyfloat list \<Rightarrow> pyfloat list" where
  "vsub_fl xs ys = map2 fsub xs ys"

definition smul_fl :: "pyfloat \<Rightarrow> pyfloat list \<Rightarrow> pyfloat list" where
  "smul_fl c xs = map (\<lambda>x. fmul c x) xs"

definition stencil_fl :: "pyfloat \<Rightarrow> pyfloat list \<Rightarrow> pyfloat list" where
  \<comment> \<open>\<open>U[1:-1] + r * (U[2:] - 2 * U[1:-1] + U[:-2])\<close>, each operation rounded\<close>
  "stencil_fl r U =
     vadd_fl (mid U)
       (smul_fl r (vadd_fl (vsub_fl (drop 2 U) (smul_fl (Fin 2) (mid U)))
                     (take (length U - 2) U)))"

definition np_zeros_fl :: "int \<Rightarrow> int \<Rightarrow> py_error + pyfloat list list" where
  "np_zeros_fl rows cols =
     (if rows < 0 \<or> cols < 0 then Inl ValueError
      else Inr (replicate (nat rows) (replicate (nat cols) (Fin 0))))"

definition step_fr_fl ::
  "pyfloat \<Rightarrow> pyfloat \<Rightarrow> pyfloat \<Rightarrow> pyfloat list \<Rightarrow> py_error + pyfloat list" where
  "step_fr_fl alpha U1 U2 U = set_ends U1 U2 (set_mid U (stencil_fl alpha U))"

fun loop_fr_fl ::
  "nat list \<Rightarrow> pyfloat \<Rightarrow> pyfloat \<Rightarrow> pyfloat \<Rightarrow> pyfloat list \<times> pyfloat list list
     \<Rightarrow> py_error + pyfloat list \<times> pyfloat list list" where
  "loop_fr_fl [] alpha U1 U2 st = Inr st"
| "loop_fr_fl (n # ns) alpha U1 U2 (U, U_all) =
     (case step_fr_fl alpha U1 U2 U of
        Inl e \<Rightarrow> Inl e
      | Inr U_new \<Rightarrow>
          (case assign_row U_all (n + 1) U_new of
             Inl e \<Rightarrow> Inl e
           | Inr U_all' \<Rightarrow> loop_fr_fl ns alpha U1 U2 (U_new, U_all')))"

definition scalars_fr ::
  "int \<Rightarrow> int \<Rightarrow> pyfloat \<Rightarrow> pyfloat \<Rightarrow> pyfloat \<Rightarrow> py_error + pyfloat \<times> pyfloat" where
  \<comment> \<open>the first three statements of \<open>explicit_heat\<close>: \<open>alpha\<close> and \<open>dt\<close>\<close>
  "scalars_fr Nx Nt L T D =
     (case py_fdiv_int L (Nx - 1) of
        Inl e \<Rightarrow> Inl e
      | Inr dx \<Rightarrow>
     (case py_fdiv_int T Nt of
        Inl e \<Rightarrow> Inl e
      | Inr dt \<Rightarrow>
     (case py_fpow2 dx of
        Inl e \<Rightarrow> Inl e
      | Inr dx2 \<Rightarrow>
     (case py_fdiv (fmul D dt) dx2 of
        Inl e \<Rightarrow> Inl e
      | Inr alpha \<Rightarrow> Inr (alpha, dt)))))"

definition explicit_heat_fl ::
  "pyfloat list \<Rightarrow> int \<Rightarrow> int \<Rightarrow> pyfloat \<Rightarrow> pyfloat \<Rightarrow> pyfloat \<Rightarrow> pyfloat \<Rightarrow> pyfloat
     \<Rightarrow> py_error + pyfloat list list \<times> pyfloat \<times> pyfloat" where
  "explicit_heat_fl U_init Nx Nt L T D U1 U2 =
     (case scalars_fr Nx Nt L T D of
        Inl e \<Rightarrow> Inl e
      | Inr (alpha, dt) \<Rightarrow>
     (case np_zeros_fl (Nt + 1) Nx of
        Inl e \<Rightarrow> Inl e
      | Inr Z \<Rightarrow>
     (case assign_row Z 0 U_init of
        Inl e \<Rightarrow> Inl e
      | Inr U_all0 \<Rightarrow>
     (case loop_fr_fl [0..<nat Nt] alpha U1 U2 (U_init, U_all0) of
        Inl e \<Rightarrow> Inl e
      | Inr (U, U_all) \<Rightarrow> Inr (U_all, alpha, dt)))))"

section \<open>heat\_equation.py in double precision\<close>

definition linspace_fl :: "pyfloat \<Rightarrow> pyfloat \<Rightarrow> int \<Rightarrow> py_error + pyfloat list" where
  \<comment> \<open>\<open>np.linspace(start, stop, num)\<close> as NumPy computes it: \<open>arange(num) * step + start\<close>
      with \<open>step = (stop - start) / (num - 1)\<close>, the products taken as
      \<open>arange(num) / (num - 1) * (stop - start)\<close> when the step is zero, and the last
      sample set to \<open>stop\<close>\<close>
  "linspace_fl start stop num =
     (if num < 0 then Inl ValueError
      else
        (let delta = fsub stop start;
             y = map (\<lambda>i. fl_round (real i)) [0..<nat num]
         in if 0 < num - 1 then
              (let dv = fl_round (real_of_int (num - 1));
                   step = fdiv delta dv;
                   y1 = (if step = Fin 0 then map (\<lambda>v. fmul (fdiv v dv) delta) y
                         else map (\<lambda>v. fmul v step) y);
                   y2 = map (\<lambda>v. fadd v start) y1
               in Inr (y2[nat num - 1 := stop]))
            else Inr (map (\<lambda>v. fadd (fmul v delta) start) y)))"

definition initialize_conditions_fl ::
  "(pyfloat \<Rightarrow> pyfloat) \<Rightarrow> int \<Rightarrow> pyfloat
     \<Rightarrow> py_error + pyfloat list \<times> pyfloat list \<times> int \<times> int" where
  \<comment> \<open>the first argument is \<open>np.tanh\<close> on a double, which the C library provides\<close>
  "initialize_conditions_fl tanh_fl Nx L =
     (let A = 10; B = 10; c = 0 in
      case linspace_fl (Fin 0) L Nx of
        Inl e \<Rightarrow> Inl e
      | Inr x \<Rightarrow>
          Inr (x,
               map (\<lambda>xi. fsub (Fin (real_of_int A))
                            (fmul (Fin (real_of_int B)) (tanh_fl (fsub (Fin (real_of_int c)) xi)))) x,
               A, B))"

definition check_stability_fl ::
  "pyfloat \<Rightarrow> pyfloat \<Rightarrow> int \<Rightarrow> int \<Rightarrow> pyfloat \<Rightarrow> py_error + bool \<times> pyfloat" where
  "check_stability_fl D T Nt Nx L =
     (case py_fdiv_int T Nt of
        Inl e \<Rightarrow> Inl e
      | Inr dt \<Rightarrow>
     (case py_fdiv_int L Nx of
        Inl e \<Rightarrow> Inl e
      | Inr dx \<Rightarrow>
     (case py_fpow2 dx of
        Inl e \<Rightarrow> Inl e
      | Inr dx2 \<Rightarrow>
     (case py_fdiv (fmul D dt) dx2 of
        Inl e \<Rightarrow> Inl e
      | Inr stability_factor \<Rightarrow>
          Inr (fle stability_factor (Fin (5 / 10)), stability_factor)))))"

definition step_eq_fl ::
  "pyfloat \<Rightarrow> pyfloat \<Rightarrow> pyfloat \<Rightarrow> pyfloat list list \<Rightarrow> nat
     \<Rightarrow> py_error + pyfloat list list" where
  "step_eq_fl r a b U n =
     (if length U \<le> n + 1 then Inl IndexError
      else case set_ends a b (set_mid (U ! (n + 1)) (stencil_fl r (U ! n))) of
             Inl e \<Rightarrow> Inl e
           | Inr row \<Rightarrow> Inr (U[n + 1 := row]))"

fun loop_eq_fl ::
  "nat list \<Rightarrow> pyfloat \<Rightarrow> pyfloat \<Rightarrow> pyfloat \<Rightarrow> pyfloat list list
     \<Rightarrow> py_error + pyfloat list list" where
  "loop_eq_fl [] r a b U = Inr U"
| "loop_eq_fl (n # ns) r a b U =
     (case step_eq_fl r a b U n of
        Inl e \<Rightarrow> Inl e
      | Inr U' \<Rightarrow> loop_eq_fl ns r a b U')"

definition solve_heat_equation_euler_fl ::
  "(pyfloat \<Rightarrow> pyfloat) \<Rightarrow> pyfloat \<Rightarrow> pyfloat \<Rightarrow> pyfloat \<Rightarrow> int \<Rightarrow> int
     \<Rightarrow> py_error + pyfloat list \<times> pyfloat list \<times> pyfloat list list" where
  "solve_heat_equation_euler_fl tanh_fl L T D Nt Nx =
     (case initialize_conditions_fl tanh_fl Nx L of
        Inl e \<Rightarrow> Inl e
      | Inr (x, U0, A, B) \<Rightarrow>
     (case py_fdiv_int T Nt of
        Inl e \<Rightarrow> Inl e
      | Inr dt \<Rightarrow>
     (case py_fdiv_int L Nx of
        Inl e \<Rightarrow> Inl e
      | Inr dx \<Rightarrow>
     (case check_stability_fl D T Nt Nx L of
        Inl e \<Rightarrow> Inl e
      | Inr (is_stable, stability_factor) \<Rightarrow>
     (case np_zeros_fl (Nt + 1) Nx of
        Inl e \<Rightarrow> Inl e
      | Inr Z \<Rightarrow>
     (case assign_row Z 0 U0 of
        Inl e \<Rightarrow> Inl e
      | Inr U_0 \<Rightarrow>
     (case py_fpow2 dx of
        Inl e \<Rightarrow> Inl e
      | Inr dx2 \<Rightarrow>
     (case py_fdiv (fmul D dt) dx2 of
        Inl e \<Rightarrow> Inl e
      | Inr r \<Rightarrow>
     (case loop_eq_fl [0..<nat Nt] r (Fin (real_of_int (A + B))) (Fin (real_of_int (A - B))) U_0 of
        Inl e \<Rightarrow> Inl e
      | Inr U \<Rightarrow>
     (case linspace_fl (Fin 0) T (Nt + 1) of
        Inl e \<Rightarrow> Inl e
      | Inr t \<Rightarrow> Inr (x, t, U)))))))))))"

subsection \<open>The verification loop of heat\_eq\_fr.py\<close>







section \<open>stability\_analysis.py\<close>

definition analyze_stability ::
  "pyfloat \<Rightarrow> pyfloat \<Rightarrow> pyfloat \<Rightarrow> int \<Rightarrow> int \<Rightarrow> py_error + bool \<times> int option" where
  \<comment> \<open>in double precision: the returned verdict, and the step count printed as
      \<open>Required Nt for stability\<close> when there is one\<close>
  "analyze_stability L T D Nt Nx =
     (case py_fdiv_int T Nt of
        Inl e \<Rightarrow> Inl e
      | Inr dt \<Rightarrow>
     (case py_fdiv_int L Nx of
        Inl e \<Rightarrow> Inl e
      | Inr dx \<Rightarrow>
     (case py_fpow2 dx of
        Inl e \<Rightarrow> Inl e
      | Inr dx2 \<Rightarrow>
     (case py_fdiv (fmul D dt) dx2 of
        Inl e \<Rightarrow> Inl e
      | Inr r \<Rightarrow>
          if flt (Fin (5 / 10)) r then
            (case py_float_of_int (Nx ^ 2) of
               Inl e \<Rightarrow> Inl e
             | Inr Nx2 \<Rightarrow>
            (case py_fpow2 L of
               Inl e \<Rightarrow> Inl e
             | Inr L2 \<Rightarrow>
            (case py_fdiv (fmul (fmul (fmul (Fin 2) D) T) Nx2) L2 of
               Inl e \<Rightarrow> Inl e
             | Inr q \<Rightarrow>
            (case py_ceil_int q of
               Inl e \<Rightarrow> Inl e
             | Inr Nt_required \<Rightarrow> Inr (fle r (Fin (5 / 10)), Some Nt_required)))))
          else Inr (fle r (Fin (5 / 10)), None)))))"

section \<open>The update rule and the field in closed form\<close>

text \<open>
  The update rule as the specification writes it, one entry at a time: the boundary
  constants at the two ends, the three-point formula in between. The field that the
  steppers return is the list of iterates of this rule on the initial profile.
\<close>

definition next_row :: "real \<Rightarrow> real \<Rightarrow> real \<Rightarrow> real list \<Rightarrow> real list" where
  "next_row r a b U =
     map (\<lambda>i. if i = 0 then a else if i = length U - 1 then b
               else U ! i + r * (U ! (i + 1) - 2 * U ! i + U ! (i - 1)))
         [0..<length U]"

definition iterates :: "('a list \<Rightarrow> 'a list) \<Rightarrow> 'a list \<Rightarrow> nat \<Rightarrow> 'a list list" where
  "iterates f U n = map (\<lambda>k. (f ^^ k) U) [0..<n + 1]"

definition rows_from ::
  "('a list \<Rightarrow> 'a list) \<Rightarrow> nat \<Rightarrow> nat \<Rightarrow> 'a list \<Rightarrow> 'a list list \<Rightarrow> 'a list list" where
  \<comment> \<open>the matrix \<open>M\<close> after the rounds \<open>a, \<dots>, b - 1\<close> of the loop, started on the row \<open>U\<close>\<close>
  "rows_from f a b U M =
     map (\<lambda>k. if a < k \<and> k \<le> b then (f ^^ (k - a)) U else M ! k) [0..<length M]"

definition ratio_fr :: "real \<Rightarrow> real \<Rightarrow> real \<Rightarrow> int \<Rightarrow> int \<Rightarrow> real" where
  \<comment> \<open>\<open>alpha\<close> of \<open>explicit_heat\<close>, with \<open>dx = L / (Nx - 1)\<close>\<close>
  "ratio_fr L T D Nt Nx = D * (T / real_of_int Nt) / (L / real_of_int (Nx - 1)) ^ 2"

definition ratio_eq :: "real \<Rightarrow> real \<Rightarrow> real \<Rightarrow> int \<Rightarrow> int \<Rightarrow> real" where
  \<comment> \<open>\<open>r\<close> of heat\_equation.py and stability\_analysis.py, with \<open>dx = L / Nx\<close>\<close>
  "ratio_eq L T D Nt Nx = D * (T / real_of_int Nt) / (L / real_of_int Nx) ^ 2"

definition profile_eq :: "real \<Rightarrow> int \<Rightarrow> real list" where
  \<comment> \<open>\<open>U0\<close> of \<open>initialize_conditions\<close> on its grid\<close>
  "profile_eq L Nx = map (\<lambda>xi. 10 - 10 * tanh (0 - xi)) (linspace_pts 0 L Nx)"

definition field_fr :: "py_error + real list list \<times> real \<times> real \<Rightarrow> real list list" where
  \<comment> \<open>the field in what \<open>explicit_heat\<close> returns; no row when it raised\<close>
  "field_fr res = (case res of Inl e \<Rightarrow> [] | Inr (U_all, alpha, dt) \<Rightarrow> U_all)"

definition field_eq ::
  "py_error + real list \<times> real list \<times> real list list \<Rightarrow> real list list" where
  \<comment> \<open>the field in what \<open>solve_heat_equation_euler\<close> returns; no row when it raised\<close>
  "field_eq res = (case res of Inl e \<Rightarrow> [] | Inr (x, t, U) \<Rightarrow> U)"

definition with_boundaries :: "real \<Rightarrow> real \<Rightarrow> real list \<Rightarrow> real list" where
  \<comment> \<open>a profile with the boundary constants applied at its two endpoint samples, as the
      specification describes row \<open>0\<close>\<close>
  "with_boundaries a b U = (U[0 := a])[length U - 1 := b]"

definition next_row_fl :: "pyfloat \<Rightarrow> pyfloat \<Rightarrow> pyfloat \<Rightarrow> pyfloat list \<Rightarrow> pyfloat list" where
  \<comment> \<open>the update rule one entry at a time, each operation rounded, in the order in which
      the array expression evaluates\<close>
  "next_row_fl r a b U =
     map (\<lambda>i. if i = 0 then a else if i = length U - 1 then b
               else fadd (U ! i)
                      (fmul r (fadd (fsub (U ! (i + 1)) (fmul (Fin 2) (U ! i))) (U ! (i - 1)))))
         [0..<length U]"

definition spec_profile :: "real \<Rightarrow> real \<Rightarrow> real \<Rightarrow> real \<Rightarrow> real list \<Rightarrow> real list" where
  \<comment> \<open>the initial profile as the specification writes it, \<open>scale\<close> its shape parameter\<close>
  "spec_profile A B L scale x = map (\<lambda>xi. A - B * tanh ((xi - L / 2) / scale)) x"

text \<open>
  How a run of the loop on the store corresponds to a run of the loop on values: both
  raise the same error, or the store run ends with the value run's \<open>U\<close> and \<open>U_all\<close> at
  the addresses it holds, and with every other object that existed before unchanged.
\<close>

definition sim_result ::
  "ndarray list \<Rightarrow> nat \<Rightarrow> py_error + real list \<times> real list list
     \<Rightarrow> py_error + ndarray list \<times> nat \<Rightarrow> bool" where
  "sim_result h ua res res_st =
     (case res of
        Inl e \<Rightarrow> res_st = Inl e
      | Inr (U', M') \<Rightarrow>
          (\<exists>h' u'. res_st = Inr (h', u') \<and> u' < length h' \<and> h' ! u' = Arr1 U' \<and>
                   h' ! ua = Arr2 M' \<and> length h \<le> length h' \<and>
                   (\<forall>b<length h. b \<noteq> ua \<longrightarrow> h' ! b = h ! b)))"

section \<open>Properties\<close>

subsection \<open>Rounding to double precision\<close>

lemma rne_exact [simp]: "rne (of_int m) = m"
  by (simp add: rne_def)

lemma rne_near:
  assumes "\<bar>y - of_int m\<bar> < 1 / 2"
  shows "rne y = m"
proof (cases "of_int m \<le> y")
  case True
  then have "\<lfloor>y\<rfloor> = m" using assms by (intro floor_unique) auto
  then show ?thesis using assms True by (simp add: rne_def)
next
  case False
  then have "\<lfloor>y\<rfloor> = m - 1" using assms by (intro floor_unique) auto
  then show ?thesis using assms False by (simp add: rne_def)
qed

lemma rne_tie_even:
  assumes "y = of_int f + 1 / 2"
  shows "rne y = (if even f then f else f + 1)"
proof -
  have "\<lfloor>y\<rfloor> = f" using assms by (intro floor_unique) auto
  then show ?thesis using assms by (simp add: rne_def)
qed

lemma ulp_exp_normal:
  assumes "2 powi (e + 52) \<le> \<bar>x\<bar>" "\<bar>x\<bar> < 2 powi (e + 53)" "- 1074 \<le> e"
  shows "ulp_exp x = e"
proof -
  have pos: "0 < \<bar>x\<bar>" using assms(1) by (smt (verit) zero_less_power_int)
  have a: "(2::real) powr real_of_int (e + 52) = 2 powi (e + 52)"
    by (rule powr_real_of_int') simp_all
  have b: "(2::real) powr real_of_int (e + 53) = 2 powi (e + 53)"
    by (rule powr_real_of_int') simp_all
  have c: "real_of_int (e + 52) + 1 = real_of_int (e + 53)" by simp
  have "2 powr real_of_int (e + 52) \<le> \<bar>x\<bar> \<and> \<bar>x\<bar> < 2 powr (real_of_int (e + 52) + 1)"
    unfolding c a b using assms(1,2) by simp
  then have "\<lfloor>log 2 \<bar>x\<bar>\<rfloor> = e + 52"
    using pos by (subst floor_log_eq_powr_iff) auto
  then show ?thesis using assms(3) by (simp add: ulp_exp_def)
qed

lemma rnd_normal:
  assumes "2 powi (e + 52) \<le> \<bar>x\<bar>" "\<bar>x\<bar> < 2 powi (e + 53)" "- 1074 \<le> e"
    and "rne (x / 2 powi e) = m"
  shows "rnd x = of_int m * 2 powi e"
proof -
  have "x \<noteq> 0" using assms(1) by (smt (verit) zero_less_power_int abs_zero)
  then show ?thesis using ulp_exp_normal[OF assms(1-3)] assms(4) by (simp add: rnd_def)
qed


lemma rnd_tiny:
  assumes "\<bar>x\<bar> < 2 powi (- 1075)"
  shows "rnd x = 0"
proof (cases "x = 0")
  case True
  then show ?thesis by (simp add: rnd_def)
next
  case False
  then have pos: "0 < \<bar>x\<bar>" by simp
  have lt: "\<bar>x\<bar> < 2 powr real_of_int (- 1075)"
    using assms by (subst powr_real_of_int') simp_all
  have "log 2 \<bar>x\<bar> < real_of_int (- 1075)"
    using lt pos by (simp add: log_less_iff del: of_int_minus)
  then have "\<lfloor>log 2 \<bar>x\<bar>\<rfloor> < - 1075" by (simp add: floor_less_iff)
  then have e: "ulp_exp x = - 1074" unfolding ulp_exp_def by linarith
  have "(2::real) powi (- 1075) = 2 powi (- 1074) / 2"
    by (simp add: power_int_minus field_simps)
  then have "\<bar>x\<bar> / 2 powi (- 1074) < 1 / 2"
    using assms by (simp add: field_simps)
  then have "\<bar>x / 2 powi (- 1074) - of_int 0\<bar> < 1 / 2" by (simp add: abs_divide)
  then have "rne (x / 2 powi (- 1074)) = 0" by (rule rne_near)
  then show ?thesis using False e by (simp add: rnd_def)
qed

lemma fl_round_tiny: "\<bar>x\<bar> < 2 powi (- 1075) \<Longrightarrow> fl_round x = Fin 0"
  by (simp add: fl_round_def rnd_tiny)

lemma fl_round_normal:
  assumes "2 powi (e + 52) \<le> \<bar>x\<bar>" "\<bar>x\<bar> < 2 powi (e + 53)" "- 1074 \<le> e" "e \<le> 970"
    and "rne (x / 2 powi e) = m"
  shows "fl_round x = Fin (of_int m * 2 powi e)"
proof -
  have r: "rnd x = of_int m * 2 powi e" using assms(1,2,3,5) by (rule rnd_normal)
  have p: "(0::real) < 2 powi e" by simp
  have "\<bar>x\<bar> / 2 powi e < 2 powi (e + 53) / 2 powi e"
    using assms(2) p by (simp add: divide_strict_right_mono)
  also have "(2::real) powi (e + 53) / 2 powi e = 2 ^ 53"
    by (simp add: power_int_add)
  finally have xs: "\<bar>x / 2 powi e\<bar> < 2 ^ 53" by (simp add: abs_divide)
  have "\<bar>real_of_int (rne y) - y\<bar> \<le> 1 / 2" for y
    unfolding rne_def Let_def by (auto simp: abs_if) linarith+
  from this[of "x / 2 powi e"] xs have "\<bar>real_of_int m\<bar> < 2 ^ 53 + 1"
    unfolding assms(5) by linarith
  then have "\<bar>m\<bar> < 2 ^ 53 + 1"
    by (metis (mono_tags) of_int_abs of_int_less_iff of_int_numeral of_int_power of_int_add of_int_1)
  then have m: "\<bar>real_of_int m\<bar> \<le> 2 ^ 53"
    by (metis (mono_tags) zle_add1_eq_le zless_add1_eq of_int_abs of_int_le_iff of_int_numeral of_int_power less_le)
  have le: "(2::real) powi e \<le> 2 powi 970"
    using assms(4) by (intro power_int_increasing) simp_all
  have "\<bar>real_of_int m\<bar> * 2 powi e \<le> 2 ^ 53 * 2 powi 970"
  proof (rule mult_mono)
    show "\<bar>real_of_int m\<bar> \<le> 2 ^ 53" by (rule m)
    show "(2::real) powi e \<le> 2 powi 970" by (rule le)
    show "(0::real) \<le> 2 ^ 53" by (rule zero_le_power) simp
    show "(0::real) \<le> 2 powi e" using p by (rule less_imp_le)
  qed
  then have "\<bar>real_of_int m * 2 powi e\<bar> \<le> 2 ^ 53 * 2 powi 970"
    using p by (simp only: abs_mult abs_of_pos)
  also have "(2::real) ^ 53 * 2 powi 970 = 2 ^ 1023" by (simp add: power_add[symmetric])
  also have "(2::real) ^ 1023 < 2 ^ 1024" by (rule power_strict_increasing) simp_all
  finally have "\<bar>rnd x\<bar> < 2 ^ 1024" unfolding r .
  then show ?thesis unfolding fl_round_def Let_def r by (auto simp: abs_if split: if_splits)
qed

lemma fl_roundI:
  assumes "2 powi (e + 52) \<le> \<bar>x\<bar>" "\<bar>x\<bar> < 2 powi (e + 53)" "- 1074 \<le> e" "e \<le> 970"
    and "\<bar>x / 2 powi e - of_int m\<bar> < 1 / 2" "y = of_int m * 2 powi e"
  shows "fl_round x = Fin y"
  unfolding assms(6) using assms(1-4) rne_near[OF assms(5)] by (rule fl_round_normal)

lemma fl_round_tieI:
  assumes "2 powi (e + 52) \<le> \<bar>x\<bar>" "\<bar>x\<bar> < 2 powi (e + 53)" "- 1074 \<le> e" "e \<le> 970"
    and "x / 2 powi e = of_int f + 1 / 2" "y = of_int (if even f then f else f + 1) * 2 powi e"
  shows "fl_round x = Fin y"
  unfolding assms(6) using assms(1-4) rne_tie_even[OF assms(5)] by (rule fl_round_normal)

lemma fl_round_zero [simp]: "fl_round 0 = Fin 0"
  by (simp add: fl_round_def rnd_def)

lemma py_fdiv_Fin:
  "b \<noteq> 0 \<Longrightarrow> fl_round (a / b) = Fin c \<Longrightarrow> py_fdiv (Fin a) (Fin b) = Inr (Fin c)"
  by (simp add: py_fdiv_def)

lemma py_float_of_int_Fin:
  "fl_round (real_of_int n) = Fin y \<Longrightarrow> py_float_of_int n = Inr (Fin y)"
  by (simp add: py_float_of_int_def)

lemma py_fdiv_int_Fin:
  "fl_round (real_of_int n) = Fin b \<Longrightarrow> b \<noteq> 0 \<Longrightarrow> fl_round (a / b) = Fin c
   \<Longrightarrow> py_fdiv_int (Fin a) n = Inr (Fin c)"
  by (simp add: py_fdiv_int_def py_float_of_int_Fin py_fdiv_Fin)

lemma py_fpow2_Fin: "fl_round (x * x) = Fin y \<Longrightarrow> py_fpow2 (Fin x) = Inr (Fin y)"
  by (simp add: py_fpow2_def)

lemma py_ceil_int_Fin: "py_ceil_int (Fin x) = Inr \<lceil>x\<rceil>"
  by (simp add: py_ceil_int_def)

subsection \<open>The steppers in exact arithmetic\<close>

lemma length_mid: "length (mid U) = length U - 2"
  by (simp add: mid_def)

lemma nth_mid: "j < length U - 2 \<Longrightarrow> mid U ! j = U ! (j + 1)"
  by (simp add: mid_def nth_butlast nth_tl)

lemma length_stencil: "length (stencil r U) = length U - 2"
  by (simp add: stencil_def vadd_def vsub_def smul_def length_mid)

lemma nth_stencil:
  "j < length U - 2 \<Longrightarrow>
   stencil r U ! j = U ! (j + 1) + r * (U ! (j + 2) - 2 * U ! (j + 1) + U ! j)"
  by (simp add: stencil_def vadd_def vsub_def smul_def length_mid nth_mid add.commute)

lemma length_set_mid: "length V = length U - 2 \<Longrightarrow> length (set_mid U V) = length U"
  unfolding set_mid_def by (cases "length U < 2") auto

lemma nth_set_mid:
  "length V = length U - 2 \<Longrightarrow> 0 < i \<Longrightarrow> i < length U - 1 \<Longrightarrow> set_mid U V ! i = V ! (i - 1)"
proof -
  assume V: "length V = length U - 2" and i: "0 < i" "i < length U - 1"
  then have "\<not> length U < 2" by auto
  then have "set_mid U V = take 1 U @ V @ drop (length U - 1) U" by (simp add: set_mid_def)
  moreover have "length (take 1 U) = 1" using i by auto
  ultimately show ?thesis using V i by (auto simp: nth_append)
qed

lemma set_ends_next_row:
  assumes "length U' = length U" "2 \<le> length U"
  shows "set_ends a b (set_mid U' (stencil r U)) = Inr (next_row r a b U)"
proof -
  let ?W = "set_mid U' (stencil r U)"
  have len: "length ?W = length U"
    using assms by (simp add: length_set_mid length_stencil)
  have ne: "?W \<noteq> []" using len assms by auto
  have "(?W[0 := a])[length ?W - 1 := b] = next_row r a b U"
  proof (rule nth_equalityI)
    show "length ((?W[0 := a])[length ?W - 1 := b]) = length (next_row r a b U)"
      using len by (simp add: next_row_def)
  next
    fix i assume "i < length ((?W[0 := a])[length ?W - 1 := b])"
    then have i: "i < length U" using len by simp
    show "(?W[0 := a])[length ?W - 1 := b] ! i = next_row r a b U ! i"
    proof (cases "i = 0 \<or> i = length U - 1")
      case True
      then show ?thesis using i len assms by (auto simp: next_row_def nth_list_update)
    next
      case False
      then have "0 < i" "i < length U - 1" using i by auto
      then have "?W ! i = stencil r U ! (i - 1)"
        using assms by (simp add: nth_set_mid length_stencil)
      also have "\<dots> = U ! i + r * (U ! (i + 1) - 2 * U ! i + U ! (i - 1))"
        using \<open>0 < i\<close> \<open>i < length U - 1\<close> nth_stencil[of "i - 1" U r] by simp
      finally show ?thesis using False i len by (simp add: next_row_def nth_list_update)
    qed
  qed
  then show ?thesis using ne by (simp add: set_ends_def)
qed

lemma length_next_row: "length (next_row r a b U) = length U"
  by (simp add: next_row_def)

lemma length_funpow_next_row: "length ((next_row r a b ^^ k) U) = length U"
  by (induction k) (simp_all add: length_next_row)

lemma rows_from_empty: "b \<le> a \<Longrightarrow> rows_from f a b U M = M"
  unfolding rows_from_def by (rule nth_equalityI) auto

lemma rows_from_step:
  assumes "a < b" "b < length M"
  shows "rows_from f (Suc a) b (f U) (M[Suc a := f U]) = rows_from f a b U M"
  unfolding rows_from_def
proof (rule nth_equalityI)
  show "length (map (\<lambda>k. if Suc a < k \<and> k \<le> b then (f ^^ (k - Suc a)) (f U) else M[Suc a := f U] ! k)
          [0..<length (M[Suc a := f U])]) =
        length (map (\<lambda>k. if a < k \<and> k \<le> b then (f ^^ (k - a)) U else M ! k) [0..<length M])"
    by simp
next
  fix k
  assume "k < length (map (\<lambda>k. if Suc a < k \<and> k \<le> b then (f ^^ (k - Suc a)) (f U) else M[Suc a := f U] ! k)
          [0..<length (M[Suc a := f U])])"
  then have k: "k < length M" by simp
  consider "k \<le> a \<or> b < k" | "k = Suc a" | "Suc a < k" "k \<le> b" by linarith
  then show "map (\<lambda>k. if Suc a < k \<and> k \<le> b then (f ^^ (k - Suc a)) (f U) else M[Suc a := f U] ! k)
          [0..<length (M[Suc a := f U])] ! k =
        map (\<lambda>k. if a < k \<and> k \<le> b then (f ^^ (k - a)) U else M ! k) [0..<length M] ! k"
  proof cases
    case 1
    then show ?thesis using k assms by auto
  next
    case 2
    then show ?thesis using k assms by auto
  next
    case 3
    then have "k - a = Suc (k - Suc a)" by simp
    then have "(f ^^ (k - a)) U = (f ^^ (k - Suc a)) (f U)"
      by (simp add: funpow_swap1)
    then show ?thesis using 3 k by simp
  qed
qed

lemma loop_fr_upt:
  assumes "2 \<le> length U" "b < length M" "\<forall>i<length M. length (M ! i) = length U"
  shows "loop_fr [a..<b] alpha U1 U2 (U, M) =
         Inr ((next_row alpha U1 U2 ^^ (b - a)) U, rows_from (next_row alpha U1 U2) a b U M)"
  using assms
proof (induction "b - a" arbitrary: a U M)
  case 0
  then show ?case by (simp add: rows_from_empty)
next
  case (Suc d)
  let ?f = "next_row alpha U1 U2"
  from Suc.hyps(2) have ab: "a < b" and d: "d = b - Suc a" by auto
  have upt: "[a..<b] = a # [Suc a..<b]" using ab by (simp add: upt_conv_Cons)
  have step: "step_fr alpha U1 U2 U = Inr (?f U)"
    using Suc.prems(1) by (simp add: step_fr_def set_ends_next_row)
  have row: "assign_row M (a + 1) (?f U) = Inr (M[Suc a := ?f U])"
    using ab Suc.prems by (simp add: assign_row_def length_next_row)
  have IH: "loop_fr [Suc a..<b] alpha U1 U2 (?f U, M[Suc a := ?f U]) =
         Inr ((?f ^^ (b - Suc a)) (?f U), rows_from ?f (Suc a) b (?f U) (M[Suc a := ?f U]))"
  proof (rule Suc.hyps(1)[OF d])
    show "2 \<le> length (?f U)" using Suc.prems(1) by (simp add: length_next_row)
    show "b < length (M[Suc a := ?f U])" using Suc.prems(2) by simp
    show "\<forall>i<length (M[Suc a := ?f U]). length (M[Suc a := ?f U] ! i) = length (?f U)"
    proof (intro allI impI)
      fix i assume "i < length (M[Suc a := ?f U])"
      then have "i < length M" by simp
      then show "length (M[Suc a := ?f U] ! i) = length (?f U)"
        using Suc.prems(3) by (cases "i = Suc a") (simp_all add: length_next_row)
    qed
  qed
  have pow: "(?f ^^ (b - Suc a)) (?f U) = (?f ^^ (b - a)) U"
    using ab by (metis Suc.hyps(2) d funpow_simps_right(2) o_apply)
  show ?case
    using step row IH pow rows_from_step[OF ab Suc.prems(2), of ?f U] by (simp add: upt)
qed

lemma rows_from_iterates:
  assumes "length M = n + 1" "M ! 0 = U"
  shows "rows_from f 0 n U M = iterates f U n"
  unfolding rows_from_def iterates_def
proof (rule nth_equalityI)
  show "length (map (\<lambda>k. if 0 < k \<and> k \<le> n then (f ^^ (k - 0)) U else M ! k) [0..<length M]) =
        length (map (\<lambda>k. (f ^^ k) U) [0..<n + 1])"
    using assms(1) by simp
next
  fix i
  assume "i < length (map (\<lambda>k. if 0 < k \<and> k \<le> n then (f ^^ (k - 0)) U else M ! k) [0..<length M])"
  then have i: "i < n + 1" using assms(1) by simp
  have l: "map (\<lambda>k. if 0 < k \<and> k \<le> n then (f ^^ (k - 0)) U else M ! k) [0..<length M] ! i =
        (if 0 < i \<and> i \<le> n then (f ^^ (i - 0)) U else M ! i)"
    using i assms(1) by (simp del: upt_Suc)
  have r: "map (\<lambda>k. (f ^^ k) U) [0..<n + 1] ! i = (f ^^ i) U"
    using i by (simp del: upt_Suc)
  show "map (\<lambda>k. if 0 < k \<and> k \<le> n then (f ^^ (k - 0)) U else M ! k) [0..<length M] ! i =
        map (\<lambda>k. (f ^^ k) U) [0..<n + 1] ! i"
    unfolding l r using i assms(2) by (cases "i = 0") auto
qed

lemma explicit_heat_closed:
  assumes "2 \<le> Nx" "length U_init = nat Nx" "1 \<le> Nt" "L \<noteq> 0"
  shows "explicit_heat U_init Nx Nt L T D U1 U2 =
         Inr (iterates (next_row (ratio_fr L T D Nt Nx) U1 U2) U_init (nat Nt),
              ratio_fr L T D Nt Nx, T / real_of_int Nt)"
proof -
  let ?alpha = "ratio_fr L T D Nt Nx"
  let ?Z = "replicate (nat (Nt + 1)) (replicate (nat Nx) (0::real))"
  let ?M = "?Z[0 := U_init]"
  have dx: "py_div L (real_of_int (Nx - 1)) = Inr (L / real_of_int (Nx - 1))"
    using assms(1) by (simp add: py_div_def)
  have dt: "py_div T (real_of_int Nt) = Inr (T / real_of_int Nt)"
    using assms(3) by (simp add: py_div_def)
  have "(L / real_of_int (Nx - 1)) ^ 2 \<noteq> 0" using assms(1,4) by simp
  then have al: "py_div (D * (T / real_of_int Nt)) ((L / real_of_int (Nx - 1)) ^ 2) = Inr ?alpha"
    by (simp add: py_div_def ratio_fr_def)
  have z: "np_zeros (Nt + 1) Nx = Inr ?Z" using assms(1,3) by (simp add: np_zeros_def)
  have r0: "assign_row ?Z 0 U_init = Inr ?M"
    using assms(2,3) by (simp add: assign_row_def)
  have lenM: "length ?M = nat Nt + 1" using assms(3) by (simp add: nat_add_distrib)
  have rows: "\<forall>i<length ?M. length (?M ! i) = length U_init"
    using assms(2) by (auto simp: nth_list_update)
  have "2 \<le> length U_init" using assms(1,2) by simp
  then have loop: "loop_fr [0..<nat Nt] ?alpha U1 U2 (U_init, ?M) =
      Inr ((next_row ?alpha U1 U2 ^^ (nat Nt - 0)) U_init,
           rows_from (next_row ?alpha U1 U2) 0 (nat Nt) U_init ?M)"
    using lenM rows by (intro loop_fr_upt) simp_all
  have "?M ! 0 = U_init" using assms(3) by simp
  then have "rows_from (next_row ?alpha U1 U2) 0 (nat Nt) U_init ?M =
             iterates (next_row ?alpha U1 U2) U_init (nat Nt)"
    using lenM by (intro rows_from_iterates)
  then show ?thesis
    unfolding explicit_heat_def using dx dt al z r0 loop by simp
qed

lemma step_eq_next_row:
  assumes "n + 1 < length U" "length (U ! (n + 1)) = length (U ! n)" "2 \<le> length (U ! n)"
  shows "step_eq r a b U n = Inr (U[Suc n := next_row r a b (U ! n)])"
  using assms by (simp add: step_eq_def set_ends_next_row)

lemma loop_eq_upt:
  assumes "b < length M" "\<forall>i<length M. length (M ! i) = m" "2 \<le> m"
  shows "loop_eq [a..<b] r u v M = Inr (rows_from (next_row r u v) a b (M ! a) M)"
  using assms
proof (induction "b - a" arbitrary: a M)
  case 0
  then show ?case by (simp add: rows_from_empty)
next
  case (Suc d)
  let ?f = "next_row r u v"
  let ?M' = "M[Suc a := ?f (M ! a)]"
  from Suc.hyps(2) have ab: "a < b" and d: "d = b - Suc a" by auto
  have upt: "[a..<b] = a # [Suc a..<b]" using ab by (simp add: upt_conv_Cons)
  have step: "step_eq r u v M a = Inr ?M'"
    using ab Suc.prems by (intro step_eq_next_row) auto
  have IH: "loop_eq [Suc a..<b] r u v ?M' = Inr (rows_from ?f (Suc a) b (?M' ! Suc a) ?M')"
  proof (rule Suc.hyps(1)[OF d])
    show "b < length ?M'" using Suc.prems(1) by simp
    show "\<forall>i<length ?M'. length (?M' ! i) = m"
    proof (intro allI impI)
      fix i assume "i < length ?M'"
      then have i: "i < length M" by simp
      have "a < length M" using ab Suc.prems(1) by simp
      then show "length (?M' ! i) = m"
        using Suc.prems(2) i by (cases "i = Suc a") (simp_all add: length_next_row)
    qed
    show "2 \<le> m" by (rule Suc.prems(3))
  qed
  have "?M' ! Suc a = ?f (M ! a)" using ab Suc.prems(1) by simp
  then show ?case
    using step IH rows_from_step[OF ab Suc.prems(1), of ?f "M ! a"] by (simp add: upt)
qed

lemma length_linspace_pts: "length (linspace_pts s e num) = nat num"
  by (simp add: linspace_pts_def)

lemma length_profile_eq: "length (profile_eq L Nx) = nat Nx"
  by (simp add: profile_eq_def length_linspace_pts)

lemma initialize_conditions_closed:
  "0 \<le> Nx \<Longrightarrow> initialize_conditions Nx L = Inr (linspace_pts 0 L Nx, profile_eq L Nx, 10, 10)"
  by (simp add: initialize_conditions_def linspace_def profile_eq_def)

lemma check_stability_closed:
  assumes "Nt \<noteq> 0" "Nx \<noteq> 0" "L \<noteq> 0"
  shows "check_stability D T Nt Nx L = Inr (ratio_eq L T D Nt Nx \<le> 5 / 10, ratio_eq L T D Nt Nx)"
  using assms by (simp add: check_stability_def py_div_def ratio_eq_def)

lemma solve_heat_equation_euler_closed:
  assumes "2 \<le> Nx" "1 \<le> Nt" "L \<noteq> 0"
  shows "solve_heat_equation_euler L T D Nt Nx =
         Inr (linspace_pts 0 L Nx, linspace_pts 0 T (Nt + 1),
              iterates (next_row (ratio_eq L T D Nt Nx) 20 0) (profile_eq L Nx) (nat Nt))"
proof -
  let ?r = "ratio_eq L T D Nt Nx"
  let ?U0 = "profile_eq L Nx"
  let ?Z = "replicate (nat (Nt + 1)) (replicate (nat Nx) (0::real))"
  let ?M = "?Z[0 := ?U0]"
  have ini: "initialize_conditions Nx L = Inr (linspace_pts 0 L Nx, ?U0, 10, 10)"
    using assms(1) by (simp add: initialize_conditions_closed)
  have dt: "py_div T (real_of_int Nt) = Inr (T / real_of_int Nt)"
    using assms(2) by (simp add: py_div_def)
  have dx: "py_div L (real_of_int Nx) = Inr (L / real_of_int Nx)"
    using assms(1) by (simp add: py_div_def)
  have chk: "check_stability D T Nt Nx L = Inr (?r \<le> 5 / 10, ?r)"
    using assms by (intro check_stability_closed) auto
  have z: "np_zeros (Nt + 1) Nx = Inr ?Z" using assms(1,2) by (simp add: np_zeros_def)
  have r0: "assign_row ?Z 0 ?U0 = Inr ?M"
    using assms(2) by (simp add: assign_row_def length_profile_eq)
  have "(L / real_of_int Nx) ^ 2 \<noteq> 0" using assms(1,3) by simp
  then have r: "py_div (D * (T / real_of_int Nt)) ((L / real_of_int Nx) ^ 2) = Inr ?r"
    by (simp add: py_div_def ratio_eq_def)
  have lenM: "length ?M = nat Nt + 1" using assms(2) by (simp add: nat_add_distrib)
  have rows: "\<forall>i<length ?M. length (?M ! i) = nat Nx"
    by (auto simp: nth_list_update length_profile_eq)
  have M0: "?M ! 0 = ?U0" using assms(2) by simp
  have "loop_eq [0..<nat Nt] ?r 20 0 ?M = Inr (rows_from (next_row ?r 20 0) 0 (nat Nt) (?M ! 0) ?M)"
    using lenM rows assms(1) by (intro loop_eq_upt[where m = "nat Nx"]) simp_all
  also have "rows_from (next_row ?r 20 0) 0 (nat Nt) (?M ! 0) ?M =
             iterates (next_row ?r 20 0) ?U0 (nat Nt)"
    unfolding M0 using lenM M0 by (intro rows_from_iterates)
  finally have loop: "loop_eq [0..<nat Nt] ?r 20 0 ?M = Inr (iterates (next_row ?r 20 0) ?U0 (nat Nt))" .
  have t: "linspace 0 T (Nt + 1) = Inr (linspace_pts 0 T (Nt + 1))"
    using assms(2) by (simp add: linspace_def)
  show ?thesis
    unfolding solve_heat_equation_euler_def using ini dt dx chk z r0 r loop t by simp
qed

lemma length_iterates: "length (iterates f U n) = n + 1"
  by (simp add: iterates_def)

lemma nth_iterates: "k \<le> n \<Longrightarrow> iterates f U n ! k = (f ^^ k) U"
  unfolding iterates_def by (simp del: upt_Suc)

lemma set_iterates: "row \<in> set (iterates f U n) \<Longrightarrow> \<exists>k\<le>n. row = (f ^^ k) U"
  unfolding iterates_def by (auto simp del: upt_Suc simp: less_Suc_eq_le)

lemma length_rows_iterates:
  "row \<in> set (iterates (next_row r a b) U n) \<Longrightarrow> length row = length U"
  by (auto dest: set_iterates simp: length_funpow_next_row)

lemma nth_linspace_pts:
  assumes "2 \<le> num" "k < nat num"
  shows "linspace_pts s e num ! k = real k * ((e - s) / real_of_int (num - 1)) + s"
  using assms unfolding linspace_pts_def by (simp del: upt_Suc)

text \<open>
  Claim C9. For valid inputs (\<open>Nt \<ge> 1\<close>, \<open>Nx \<ge> 3\<close>, a non-zero length and an initial
  profile of \<open>Nx\<close> samples) both steppers return, the field has exactly \<open>Nt + 1\<close> rows of
  \<open>Nx\<close> columns each, and the time grid of \<open>solve_heat_equation_euler\<close> has exactly
  \<open>Nt + 1\<close> values \<open>k * (T / Nt)\<close>, from \<open>0\<close> to \<open>T\<close> inclusive.
\<close>

theorem shape_of_results:
  assumes "3 \<le> Nx" "1 \<le> Nt" "L \<noteq> 0" "length U_init = nat Nx"
  shows "(\<exists>U_all alpha dt.
            explicit_heat U_init Nx Nt L T D U1 U2 = Inr (U_all, alpha, dt) \<and>
            length U_all = nat Nt + 1 \<and> (\<forall>row\<in>set U_all. length row = nat Nx)) \<and>
         (\<exists>x t U.
            solve_heat_equation_euler L T D Nt Nx = Inr (x, t, U) \<and>
            length U = nat Nt + 1 \<and> (\<forall>row\<in>set U. length row = nat Nx) \<and>
            length t = nat Nt + 1 \<and> t ! 0 = 0 \<and> t ! nat Nt = T \<and>
            (\<forall>k\<le>nat Nt. t ! k = real k * (T / real_of_int Nt)))"
proof (rule conjI)
  have "explicit_heat U_init Nx Nt L T D U1 U2 =
         Inr (iterates (next_row (ratio_fr L T D Nt Nx) U1 U2) U_init (nat Nt),
              ratio_fr L T D Nt Nx, T / real_of_int Nt)"
    using assms by (intro explicit_heat_closed) auto
  then show "\<exists>U_all alpha dt.
            explicit_heat U_init Nx Nt L T D U1 U2 = Inr (U_all, alpha, dt) \<and>
            length U_all = nat Nt + 1 \<and> (\<forall>row\<in>set U_all. length row = nat Nx)"
    using assms(4) by (auto simp: length_iterates dest: length_rows_iterates)
next
  let ?t = "linspace_pts 0 T (Nt + 1)"
  have sol: "solve_heat_equation_euler L T D Nt Nx =
         Inr (linspace_pts 0 L Nx, ?t,
              iterates (next_row (ratio_eq L T D Nt Nx) 20 0) (profile_eq L Nx) (nat Nt))"
    using assms by (intro solve_heat_equation_euler_closed) auto
  have len: "length ?t = nat Nt + 1"
    using assms(2) by (simp add: length_linspace_pts nat_add_distrib)
  have nth: "?t ! k = real k * (T / real_of_int Nt)" if "k \<le> nat Nt" for k
    using nth_linspace_pts[of "Nt + 1" k 0 T] assms(2) that by simp
  have "?t ! 0 = 0" using nth[of 0] by simp
  moreover have "?t ! nat Nt = T" using nth[of "nat Nt"] assms(2) by simp
  ultimately show "\<exists>x t U.
            solve_heat_equation_euler L T D Nt Nx = Inr (x, t, U) \<and>
            length U = nat Nt + 1 \<and> (\<forall>row\<in>set U. length row = nat Nx) \<and>
            length t = nat Nt + 1 \<and> t ! 0 = 0 \<and> t ! nat Nt = T \<and>
            (\<forall>k\<le>nat Nt. t ! k = real k * (T / real_of_int Nt))"
    using sol len nth
    by (auto simp: length_iterates length_profile_eq dest: length_rows_iterates)
qed

theorem shape_of_results_witness:
  "(\<exists>U_all alpha dt.
      explicit_heat [20, 10, 0] 3 2 1 1 (1 / 20) 20 0 = Inr (U_all, alpha, dt) \<and>
      length U_all = 3 \<and> (\<forall>row\<in>set U_all. length row = 3)) \<and>
   (\<exists>x t U.
      solve_heat_equation_euler 1 1 (1 / 20) 2 3 = Inr (x, t, U) \<and>
      length U = 3 \<and> (\<forall>row\<in>set U. length row = 3) \<and>
      length t = 3 \<and> t ! 0 = 0 \<and> t ! 2 = 1 \<and>
      (\<forall>k\<le>2. t ! k = real k * (1 / 2)))"
  using shape_of_results[of 3 2 1 "[20, 10, 0]" 1 "1 / 20" 20 0] by simp

lemma nth_next_row:
  "i < length U \<Longrightarrow>
   next_row r a b U ! i =
     (if i = 0 then a else if i = length U - 1 then b
      else U ! i + r * (U ! (i + 1) - 2 * U ! i + U ! (i - 1)))"
  unfolding next_row_def by (simp del: upt_Suc)

lemma iterates_Suc: "n < m \<Longrightarrow> iterates f U m ! (n + 1) = f (iterates f U m ! n)"
  by (simp add: nth_iterates)

lemma next_row_pointwise:
  assumes "3 \<le> length U"
  shows "next_row r a b U ! 0 = a \<and> next_row r a b U ! (length U - 1) = b \<and>
         (\<forall>i. 1 \<le> i \<and> i \<le> length U - 2 \<longrightarrow>
              next_row r a b U ! i = U ! i + r * (U ! (i + 1) - 2 * U ! i + U ! (i - 1)))"
proof (intro conjI allI impI)
  have "0 < length U" using assms by linarith
  from nth_next_row[OF this, of r a b] show "next_row r a b U ! 0 = a" by simp
next
  have "length U - 1 < length U" "length U - 1 \<noteq> 0" using assms by linarith+
  then show "next_row r a b U ! (length U - 1) = b" by (simp add: nth_next_row)
next
  fix i assume "1 \<le> i \<and> i \<le> length U - 2"
  then have "i < length U" "i \<noteq> 0" "i \<noteq> length U - 1" using assms by linarith+
  then show "next_row r a b U ! i = U ! i + r * (U ! (i + 1) - 2 * U ! i + U ! (i - 1))"
    by (simp add: nth_next_row)
qed

text \<open>
  Claim C2. On valid inputs, every row \<open>n + 1\<close> of the field (\<open>n < Nt\<close>) is computed from
  row \<open>n\<close> by the update rule and by nothing else: the interior entries \<open>1 \<le> i \<le> Nx - 2\<close>
  are \<open>U[n][i] + r * (U[n][i+1] - 2 * U[n][i] + U[n][i-1])\<close> with \<open>r = D * dt / dx\<^sup>2\<close>, the
  first entry is the left and the last entry the right boundary constant; the row has no
  other entry. \<open>explicit_heat\<close> takes \<open>dx = L / (Nx - 1)\<close> and the constants it is given,
  \<open>solve_heat_equation_euler\<close> takes \<open>dx = L / Nx\<close> and the constants \<open>20\<close> and \<open>0\<close>.
\<close>

theorem update_rule:
  assumes "3 \<le> Nx" "1 \<le> Nt" "L \<noteq> 0" "length U_init = nat Nx" "n < nat Nt"
  shows "(\<exists>F alpha dt.
            explicit_heat U_init Nx Nt L T D U1 U2 = Inr (F, alpha, dt) \<and>
            dt = T / real_of_int Nt \<and> alpha = D * dt / (L / real_of_int (Nx - 1)) ^ 2 \<and>
            length (F ! (n + 1)) = nat Nx \<and>
            F ! (n + 1) ! 0 = U1 \<and> F ! (n + 1) ! (nat Nx - 1) = U2 \<and>
            (\<forall>i. 1 \<le> i \<and> i \<le> nat Nx - 2 \<longrightarrow>
                 F ! (n + 1) ! i =
                 F ! n ! i + alpha * (F ! n ! (i + 1) - 2 * F ! n ! i + F ! n ! (i - 1)))) \<and>
         (\<exists>x t U r.
            solve_heat_equation_euler L T D Nt Nx = Inr (x, t, U) \<and>
            r = D * (T / real_of_int Nt) / (L / real_of_int Nx) ^ 2 \<and>
            length (U ! (n + 1)) = nat Nx \<and>
            U ! (n + 1) ! 0 = 20 \<and> U ! (n + 1) ! (nat Nx - 1) = 0 \<and>
            (\<forall>i. 1 \<le> i \<and> i \<le> nat Nx - 2 \<longrightarrow>
                 U ! (n + 1) ! i =
                 U ! n ! i + r * (U ! n ! (i + 1) - 2 * U ! n ! i + U ! n ! (i - 1))))"
proof (rule conjI)
  let ?alpha = "ratio_fr L T D Nt Nx"
  let ?F = "iterates (next_row ?alpha U1 U2) U_init (nat Nt)"
  have run: "explicit_heat U_init Nx Nt L T D U1 U2 = Inr (?F, ?alpha, T / real_of_int Nt)"
    using assms by (intro explicit_heat_closed) auto
  have len: "length (?F ! n) = nat Nx"
    using assms(4,5) by (simp add: nth_iterates length_funpow_next_row)
  have suc: "?F ! (n + 1) = next_row ?alpha U1 U2 (?F ! n)"
    using assms(5) by (rule iterates_Suc)
  have "3 \<le> length (?F ! n)" using len assms(1) by simp
  from next_row_pointwise[OF this, of ?alpha U1 U2]
  have "?F ! (n + 1) ! 0 = U1 \<and> ?F ! (n + 1) ! (nat Nx - 1) = U2 \<and>
        (\<forall>i. 1 \<le> i \<and> i \<le> nat Nx - 2 \<longrightarrow>
             ?F ! (n + 1) ! i =
             ?F ! n ! i + ?alpha * (?F ! n ! (i + 1) - 2 * ?F ! n ! i + ?F ! n ! (i - 1)))"
    unfolding suc len .
  moreover have "length (?F ! (n + 1)) = nat Nx"
    unfolding suc by (simp add: length_next_row len)
  moreover have "?alpha = D * (T / real_of_int Nt) / (L / real_of_int (Nx - 1)) ^ 2"
    by (simp add: ratio_fr_def)
  ultimately show "\<exists>F alpha dt.
            explicit_heat U_init Nx Nt L T D U1 U2 = Inr (F, alpha, dt) \<and>
            dt = T / real_of_int Nt \<and> alpha = D * dt / (L / real_of_int (Nx - 1)) ^ 2 \<and>
            length (F ! (n + 1)) = nat Nx \<and>
            F ! (n + 1) ! 0 = U1 \<and> F ! (n + 1) ! (nat Nx - 1) = U2 \<and>
            (\<forall>i. 1 \<le> i \<and> i \<le> nat Nx - 2 \<longrightarrow>
                 F ! (n + 1) ! i =
                 F ! n ! i + alpha * (F ! n ! (i + 1) - 2 * F ! n ! i + F ! n ! (i - 1)))"
    using run by blast
next
  let ?r = "ratio_eq L T D Nt Nx"
  let ?U = "iterates (next_row ?r 20 0) (profile_eq L Nx) (nat Nt)"
  have run: "solve_heat_equation_euler L T D Nt Nx =
             Inr (linspace_pts 0 L Nx, linspace_pts 0 T (Nt + 1), ?U)"
    using assms by (intro solve_heat_equation_euler_closed) auto
  have len: "length (?U ! n) = nat Nx"
    using assms(5) by (simp add: nth_iterates length_funpow_next_row length_profile_eq)
  have suc: "?U ! (n + 1) = next_row ?r 20 0 (?U ! n)"
    using assms(5) by (rule iterates_Suc)
  have "3 \<le> length (?U ! n)" using len assms(1) by simp
  from next_row_pointwise[OF this, of ?r 20 0]
  have "?U ! (n + 1) ! 0 = 20 \<and> ?U ! (n + 1) ! (nat Nx - 1) = 0 \<and>
        (\<forall>i. 1 \<le> i \<and> i \<le> nat Nx - 2 \<longrightarrow>
             ?U ! (n + 1) ! i =
             ?U ! n ! i + ?r * (?U ! n ! (i + 1) - 2 * ?U ! n ! i + ?U ! n ! (i - 1)))"
    unfolding suc len .
  moreover have "length (?U ! (n + 1)) = nat Nx"
    unfolding suc by (simp add: length_next_row len)
  moreover have "?r = D * (T / real_of_int Nt) / (L / real_of_int Nx) ^ 2"
    by (simp add: ratio_eq_def)
  ultimately show "\<exists>x t U r.
            solve_heat_equation_euler L T D Nt Nx = Inr (x, t, U) \<and>
            r = D * (T / real_of_int Nt) / (L / real_of_int Nx) ^ 2 \<and>
            length (U ! (n + 1)) = nat Nx \<and>
            U ! (n + 1) ! 0 = 20 \<and> U ! (n + 1) ! (nat Nx - 1) = 0 \<and>
            (\<forall>i. 1 \<le> i \<and> i \<le> nat Nx - 2 \<longrightarrow>
                 U ! (n + 1) ! i =
                 U ! n ! i + r * (U ! n ! (i + 1) - 2 * U ! n ! i + U ! n ! (i - 1)))"
    using run by blast
qed

theorem update_rule_witness:
  "(\<exists>F alpha dt.
      explicit_heat [20, 10, 0, 4] 4 2 1 1 (1 / 20) 20 0 = Inr (F, alpha, dt) \<and>
      dt = 1 / real_of_int 2 \<and> alpha = (1 / 20) * dt / (1 / real_of_int (4 - 1)) ^ 2 \<and>
      length (F ! (1 + 1)) = nat 4 \<and>
      F ! (1 + 1) ! 0 = 20 \<and> F ! (1 + 1) ! (nat 4 - 1) = 0 \<and>
      (\<forall>i. 1 \<le> i \<and> i \<le> nat 4 - 2 \<longrightarrow>
           F ! (1 + 1) ! i =
           F ! 1 ! i + alpha * (F ! 1 ! (i + 1) - 2 * F ! 1 ! i + F ! 1 ! (i - 1)))) \<and>
   (\<exists>x t U r.
      solve_heat_equation_euler 1 1 (1 / 20) 2 4 = Inr (x, t, U) \<and>
      r = (1 / 20) * (1 / real_of_int 2) / (1 / real_of_int 4) ^ 2 \<and>
      length (U ! (1 + 1)) = nat 4 \<and>
      U ! (1 + 1) ! 0 = 20 \<and> U ! (1 + 1) ! (nat 4 - 1) = 0 \<and>
      (\<forall>i. 1 \<le> i \<and> i \<le> nat 4 - 2 \<longrightarrow>
           U ! (1 + 1) ! i =
           U ! 1 ! i + r * (U ! 1 ! (i + 1) - 2 * U ! 1 ! i + U ! 1 ! (i - 1))))"
  by (rule update_rule) simp_all

lemma iterates_row_ends:
  assumes "3 \<le> length U" "1 \<le> n" "n \<le> m"
  shows "iterates (next_row r a b) U m ! n ! 0 = a \<and>
         iterates (next_row r a b) U m ! n ! (length U - 1) = b"
proof -
  obtain k where k: "n = Suc k" using assms(2) by (cases n) auto
  let ?V = "(next_row r a b ^^ k) U"
  have len: "length ?V = length U" by (rule length_funpow_next_row)
  have "iterates (next_row r a b) U m ! n = next_row r a b ?V"
    using assms(3) k by (simp add: nth_iterates)
  moreover have "3 \<le> length ?V" using len assms(1) by simp
  ultimately show ?thesis
    using next_row_pointwise[of ?V r a b] len by simp
qed

lemma iterates_row0: "iterates f U m ! 0 = U"
  by (simp add: nth_iterates)

text \<open>
  Claim C1, as amended. On valid inputs every row \<open>n\<close> with \<open>1 \<le> n \<le> Nt\<close> of the returned
  field has the left boundary constant as its first and the right boundary constant as its
  last entry. Row \<open>0\<close> is the initial profile as it is: its two end samples are not
  overwritten.
\<close>

theorem boundary_rows:
  assumes "3 \<le> Nx" "1 \<le> Nt" "L \<noteq> 0" "length U_init = nat Nx" "1 \<le> n" "n \<le> nat Nt"
  shows "(\<exists>F alpha dt.
            explicit_heat U_init Nx Nt L T D U1 U2 = Inr (F, alpha, dt) \<and>
            F ! n ! 0 = U1 \<and> F ! n ! (nat Nx - 1) = U2 \<and> F ! 0 = U_init) \<and>
         (\<exists>x t U.
            solve_heat_equation_euler L T D Nt Nx = Inr (x, t, U) \<and>
            U ! n ! 0 = 20 \<and> U ! n ! (nat Nx - 1) = 0 \<and>
            U ! 0 = map (\<lambda>xi. 10 - 10 * tanh (0 - xi)) x)"
proof (rule conjI)
  let ?F = "iterates (next_row (ratio_fr L T D Nt Nx) U1 U2) U_init (nat Nt)"
  have run: "explicit_heat U_init Nx Nt L T D U1 U2 =
             Inr (?F, ratio_fr L T D Nt Nx, T / real_of_int Nt)"
    using assms by (intro explicit_heat_closed) auto
  have "3 \<le> length U_init" using assms(1,4) by simp
  from iterates_row_ends[OF this assms(5,6), of "ratio_fr L T D Nt Nx" U1 U2]
  have "?F ! n ! 0 = U1 \<and> ?F ! n ! (nat Nx - 1) = U2"
    using assms(4) by simp
  then show "\<exists>F alpha dt.
            explicit_heat U_init Nx Nt L T D U1 U2 = Inr (F, alpha, dt) \<and>
            F ! n ! 0 = U1 \<and> F ! n ! (nat Nx - 1) = U2 \<and> F ! 0 = U_init"
    using run by (simp add: iterates_row0)
next
  let ?U = "iterates (next_row (ratio_eq L T D Nt Nx) 20 0) (profile_eq L Nx) (nat Nt)"
  have run: "solve_heat_equation_euler L T D Nt Nx =
             Inr (linspace_pts 0 L Nx, linspace_pts 0 T (Nt + 1), ?U)"
    using assms by (intro solve_heat_equation_euler_closed) auto
  have "3 \<le> length (profile_eq L Nx)" using assms(1) by (simp add: length_profile_eq)
  from iterates_row_ends[OF this assms(5,6), of "ratio_eq L T D Nt Nx" 20 0]
  have "?U ! n ! 0 = 20 \<and> ?U ! n ! (nat Nx - 1) = 0"
    by (simp add: length_profile_eq)
  then show "\<exists>x t U.
            solve_heat_equation_euler L T D Nt Nx = Inr (x, t, U) \<and>
            U ! n ! 0 = 20 \<and> U ! n ! (nat Nx - 1) = 0 \<and>
            U ! 0 = map (\<lambda>xi. 10 - 10 * tanh (0 - xi)) x"
    using run by (simp add: iterates_row0 profile_eq_def)
qed

theorem boundary_rows_witness:
  "(\<exists>F alpha dt.
      explicit_heat [19, 10, 1] 3 2 1 1 (1 / 20) 20 0 = Inr (F, alpha, dt) \<and>
      F ! 2 ! 0 = 20 \<and> F ! 2 ! (nat 3 - 1) = 0 \<and> F ! 0 = [19, 10, 1]) \<and>
   (\<exists>x t U.
      solve_heat_equation_euler 1 1 (1 / 20) 2 3 = Inr (x, t, U) \<and>
      U ! 2 ! 0 = 20 \<and> U ! 2 ! (nat 3 - 1) = 0 \<and>
      U ! 0 = map (\<lambda>xi. 10 - 10 * tanh (0 - xi)) x)"
  by (rule boundary_rows) simp_all

text \<open>
  Claim C1 as stated fails at row \<open>0\<close>: for \<open>L = 1\<close>, \<open>T = 1\<close>, \<open>D = 0.05\<close>, \<open>Nt = 1\<close>,
  \<open>Nx = 3\<close> the first entry of row \<open>0\<close> of \<open>solve_heat_equation_euler\<close> is
  \<open>10 - 10 * tanh 0 = 10\<close>, not the left boundary constant \<open>A + B = 20\<close>.
\<close>

theorem boundary_row0_counterexample:
  "\<not> isl (solve_heat_equation_euler 1 1 (1 / 20) 1 3) \<and>
   field_eq (solve_heat_equation_euler 1 1 (1 / 20) 1 3) ! 0 ! 0 = 10 \<and>
   field_eq (solve_heat_equation_euler 1 1 (1 / 20) 1 3) ! 0 ! 0 \<noteq> 20"
proof -
  have "solve_heat_equation_euler 1 1 (1 / 20) 1 3 =
        Inr (linspace_pts 0 1 3, linspace_pts 0 1 (1 + 1),
             iterates (next_row (ratio_eq 1 1 (1 / 20) 1 3) 20 0) (profile_eq 1 3) (nat 1))"
    by (rule solve_heat_equation_euler_closed) simp_all
  moreover have "profile_eq 1 3 ! 0 = 10"
    by (simp add: profile_eq_def linspace_pts_def)
  ultimately show ?thesis by (simp add: field_eq_def iterates_row0)
qed

text \<open>
  Claim C5, as amended. Row \<open>0\<close> of the returned field is the initial profile on the spatial
  grid, exactly and unchanged: the argument \<open>U_init\<close> for \<open>explicit_heat\<close>, and
  \<open>10 - 10 * tanh (0 - x\<^sub>i)\<close> on the returned grid for \<open>solve_heat_equation_euler\<close>. The
  boundary constants are not applied to it.
\<close>

theorem row0_is_initial_profile:
  assumes "3 \<le> Nx" "1 \<le> Nt" "L \<noteq> 0" "length U_init = nat Nx"
  shows "field_fr (explicit_heat U_init Nx Nt L T D U1 U2) ! 0 = U_init \<and>
         \<not> isl (explicit_heat U_init Nx Nt L T D U1 U2) \<and>
         (\<exists>x t U.
            solve_heat_equation_euler L T D Nt Nx = Inr (x, t, U) \<and>
            x = linspace_pts 0 L Nx \<and> length (U ! 0) = nat Nx \<and>
            (\<forall>i<nat Nx. U ! 0 ! i = 10 - 10 * tanh (0 - x ! i)))"
proof (intro conjI)
  have run: "explicit_heat U_init Nx Nt L T D U1 U2 =
             Inr (iterates (next_row (ratio_fr L T D Nt Nx) U1 U2) U_init (nat Nt),
                  ratio_fr L T D Nt Nx, T / real_of_int Nt)"
    using assms by (intro explicit_heat_closed) auto
  show "field_fr (explicit_heat U_init Nx Nt L T D U1 U2) ! 0 = U_init"
    unfolding run by (simp add: field_fr_def iterates_row0)
  show "\<not> isl (explicit_heat U_init Nx Nt L T D U1 U2)"
    unfolding run by simp
next
  have run: "solve_heat_equation_euler L T D Nt Nx =
             Inr (linspace_pts 0 L Nx, linspace_pts 0 T (Nt + 1),
                  iterates (next_row (ratio_eq L T D Nt Nx) 20 0) (profile_eq L Nx) (nat Nt))"
    using assms by (intro solve_heat_equation_euler_closed) auto
  have "profile_eq L Nx ! i = 10 - 10 * tanh (0 - linspace_pts 0 L Nx ! i)" if "i < nat Nx" for i
    using that by (simp add: profile_eq_def length_linspace_pts)
  then show "\<exists>x t U.
            solve_heat_equation_euler L T D Nt Nx = Inr (x, t, U) \<and>
            x = linspace_pts 0 L Nx \<and> length (U ! 0) = nat Nx \<and>
            (\<forall>i<nat Nx. U ! 0 ! i = 10 - 10 * tanh (0 - x ! i))"
    unfolding run by (simp add: iterates_row0 length_profile_eq)
qed

theorem row0_is_initial_profile_witness:
  "field_fr (explicit_heat (initial_profile 10 10 1 (linspace_pts 0 1 3)) 3 1 1 1 (1 / 20) 20 0) ! 0
     = initial_profile 10 10 1 (linspace_pts 0 1 3) \<and>
   \<not> isl (explicit_heat (initial_profile 10 10 1 (linspace_pts 0 1 3)) 3 1 1 1 (1 / 20) 20 0) \<and>
   (\<exists>x t U.
      solve_heat_equation_euler 1 1 (1 / 20) 1 3 = Inr (x, t, U) \<and>
      x = linspace_pts 0 1 3 \<and> length (U ! 0) = nat 3 \<and>
      (\<forall>i<nat 3. U ! 0 ! i = 10 - 10 * tanh (0 - x ! i)))"
  by (rule row0_is_initial_profile)
     (simp_all add: initial_profile_def length_linspace_pts)

text \<open>
  Claim C5 as stated fails: for the script's profile on three grid points of \<open>[0, 1]\<close> and
  the boundary constants \<open>20\<close> and \<open>0\<close>, row \<open>0\<close> of \<open>explicit_heat\<close> is the profile
  itself, whose first sample \<open>10 + 10 * tanh 5\<close> is below \<open>20\<close>, so it is not the profile
  with the boundary constants applied.
\<close>

theorem row0_boundaries_counterexample:
  "field_fr (explicit_heat (initial_profile 10 10 1 (linspace_pts 0 1 3)) 3 1 1 1 (1 / 20) 20 0) ! 0
     \<noteq> with_boundaries 20 0 (initial_profile 10 10 1 (linspace_pts 0 1 3))"
proof -
  let ?U0 = "initial_profile 10 10 1 (linspace_pts 0 1 3)"
  have len: "length ?U0 = nat 3" by (simp add: initial_profile_def length_linspace_pts)
  have run: "explicit_heat ?U0 3 1 1 1 (1 / 20) 20 0 =
             Inr (iterates (next_row (ratio_fr 1 1 (1 / 20) 1 3) 20 0) ?U0 (nat 1),
                  ratio_fr 1 1 (1 / 20) 1 3, 1 / real_of_int 1)"
    by (rule explicit_heat_closed) (simp_all add: len)
  have row0: "field_fr (explicit_heat ?U0 3 1 1 1 (1 / 20) 20 0) ! 0 = ?U0"
    unfolding run by (simp add: field_fr_def iterates_row0)
  have "linspace_pts 0 1 3 ! 0 = 0" by (simp add: linspace_pts_def)
  then have "?U0 ! 0 = 10 + 10 * tanh 5"
    by (simp add: initial_profile_def length_linspace_pts)
  moreover have "tanh (5::real) < 1" by (rule tanh_real_lt_1)
  ultimately have "?U0 ! 0 \<noteq> 20" by simp
  moreover have "with_boundaries 20 0 ?U0 ! 0 = 20"
    using len by (simp add: with_boundaries_def nth_list_update)
  ultimately have "?U0 \<noteq> with_boundaries 20 0 ?U0" by metis
  then show ?thesis unfolding row0 .
qed





subsection \<open>The steppers in double precision\<close>

lemma length_stencil_fl: "length (stencil_fl r U) = length U - 2"
  by (simp add: stencil_fl_def vadd_fl_def vsub_fl_def smul_fl_def length_mid)

lemma nth_stencil_fl:
  "j < length U - 2 \<Longrightarrow>
   stencil_fl r U ! j =
     fadd (U ! (j + 1)) (fmul r (fadd (fsub (U ! (j + 2)) (fmul (Fin 2) (U ! (j + 1)))) (U ! j)))"
  by (simp add: stencil_fl_def vadd_fl_def vsub_fl_def smul_fl_def length_mid nth_mid add.commute)

lemma set_ends_next_row_fl:
  assumes "length U' = length U" "2 \<le> length U"
  shows "set_ends a b (set_mid U' (stencil_fl r U)) = Inr (next_row_fl r a b U)"
proof -
  let ?W = "set_mid U' (stencil_fl r U)"
  have len: "length ?W = length U"
    using assms by (simp add: length_set_mid length_stencil_fl)
  have ne: "?W \<noteq> []" using len assms by auto
  have "(?W[0 := a])[length ?W - 1 := b] = next_row_fl r a b U"
  proof (rule nth_equalityI)
    show "length ((?W[0 := a])[length ?W - 1 := b]) = length (next_row_fl r a b U)"
      using len by (simp add: next_row_fl_def)
  next
    fix i assume "i < length ((?W[0 := a])[length ?W - 1 := b])"
    then have i: "i < length U" using len by simp
    show "(?W[0 := a])[length ?W - 1 := b] ! i = next_row_fl r a b U ! i"
    proof (cases "i = 0 \<or> i = length U - 1")
      case True
      then show ?thesis using i len assms by (auto simp: next_row_fl_def nth_list_update)
    next
      case False
      then have "0 < i" "i < length U - 1" using i by auto
      then have "?W ! i = stencil_fl r U ! (i - 1)"
        using assms by (simp add: nth_set_mid length_stencil_fl)
      also have "\<dots> = fadd (U ! i)
                      (fmul r (fadd (fsub (U ! (i + 1)) (fmul (Fin 2) (U ! i))) (U ! (i - 1))))"
        using \<open>0 < i\<close> \<open>i < length U - 1\<close> nth_stencil_fl[of "i - 1" U r] by simp
      finally show ?thesis using False i len by (simp add: next_row_fl_def nth_list_update)
    qed
  qed
  then show ?thesis using ne by (simp add: set_ends_def)
qed

lemma length_next_row_fl: "length (next_row_fl r a b U) = length U"
  by (simp add: next_row_fl_def)

lemma length_funpow_next_row_fl: "length ((next_row_fl r a b ^^ k) U) = length U"
  by (induction k) (simp_all add: length_next_row_fl)

lemma loop_fr_fl_upt:
  assumes "2 \<le> length U" "b < length M" "\<forall>i<length M. length (M ! i) = length U"
  shows "loop_fr_fl [a..<b] alpha U1 U2 (U, M) =
         Inr ((next_row_fl alpha U1 U2 ^^ (b - a)) U, rows_from (next_row_fl alpha U1 U2) a b U M)"
  using assms
proof (induction "b - a" arbitrary: a U M)
  case 0
  then show ?case by (simp add: rows_from_empty)
next
  case (Suc d)
  let ?f = "next_row_fl alpha U1 U2"
  from Suc.hyps(2) have ab: "a < b" and d: "d = b - Suc a" by auto
  have upt: "[a..<b] = a # [Suc a..<b]" using ab by (simp add: upt_conv_Cons)
  have step: "step_fr_fl alpha U1 U2 U = Inr (?f U)"
    using Suc.prems(1) by (simp add: step_fr_fl_def set_ends_next_row_fl)
  have row: "assign_row M (a + 1) (?f U) = Inr (M[Suc a := ?f U])"
    using ab Suc.prems by (simp add: assign_row_def length_next_row_fl)
  have IH: "loop_fr_fl [Suc a..<b] alpha U1 U2 (?f U, M[Suc a := ?f U]) =
         Inr ((?f ^^ (b - Suc a)) (?f U), rows_from ?f (Suc a) b (?f U) (M[Suc a := ?f U]))"
  proof (rule Suc.hyps(1)[OF d])
    show "2 \<le> length (?f U)" using Suc.prems(1) by (simp add: length_next_row_fl)
    show "b < length (M[Suc a := ?f U])" using Suc.prems(2) by simp
    show "\<forall>i<length (M[Suc a := ?f U]). length (M[Suc a := ?f U] ! i) = length (?f U)"
    proof (intro allI impI)
      fix i assume "i < length (M[Suc a := ?f U])"
      then have "i < length M" by simp
      then show "length (M[Suc a := ?f U] ! i) = length (?f U)"
        using Suc.prems(3) by (cases "i = Suc a") (simp_all add: length_next_row_fl)
    qed
  qed
  have pow: "(?f ^^ (b - Suc a)) (?f U) = (?f ^^ (b - a)) U"
    using ab by (metis Suc.hyps(2) d funpow_simps_right(2) o_apply)
  show ?case
    using step row IH pow rows_from_step[OF ab Suc.prems(2), of ?f U] by (simp add: upt)
qed

lemma explicit_heat_fl_closed:
  assumes "2 \<le> Nx" "length U_init = nat Nx" "1 \<le> Nt"
    and "scalars_fr Nx Nt L T D = Inr (alpha, dt)"
  shows "explicit_heat_fl U_init Nx Nt L T D U1 U2 =
         Inr (iterates (next_row_fl alpha U1 U2) U_init (nat Nt), alpha, dt)"
proof -
  let ?Z = "replicate (nat (Nt + 1)) (replicate (nat Nx) (Fin 0))"
  let ?M = "?Z[0 := U_init]"
  have z: "np_zeros_fl (Nt + 1) Nx = Inr ?Z" using assms(1,3) by (simp add: np_zeros_fl_def)
  have r0: "assign_row ?Z 0 U_init = Inr ?M"
    using assms(2,3) by (simp add: assign_row_def)
  have lenM: "length ?M = nat Nt + 1" using assms(3) by (simp add: nat_add_distrib)
  have rows: "\<forall>i<length ?M. length (?M ! i) = length U_init"
    using assms(2) by (auto simp: nth_list_update)
  have "2 \<le> length U_init" using assms(1,2) by simp
  then have loop: "loop_fr_fl [0..<nat Nt] alpha U1 U2 (U_init, ?M) =
      Inr ((next_row_fl alpha U1 U2 ^^ (nat Nt - 0)) U_init,
           rows_from (next_row_fl alpha U1 U2) 0 (nat Nt) U_init ?M)"
    using lenM rows by (intro loop_fr_fl_upt) simp_all
  have "?M ! 0 = U_init" using assms(3) by simp
  then have "rows_from (next_row_fl alpha U1 U2) 0 (nat Nt) U_init ?M =
             iterates (next_row_fl alpha U1 U2) U_init (nat Nt)"
    using lenM by (intro rows_from_iterates)
  then show ?thesis
    unfolding explicit_heat_fl_def using assms(4) z r0 loop by simp
qed

lemma step_eq_fl_next_row:
  assumes "n + 1 < length U" "length (U ! (n + 1)) = length (U ! n)" "2 \<le> length (U ! n)"
  shows "step_eq_fl r a b U n = Inr (U[Suc n := next_row_fl r a b (U ! n)])"
  using assms by (simp add: step_eq_fl_def set_ends_next_row_fl)

lemma loop_eq_fl_upt:
  assumes "b < length M" "\<forall>i<length M. length (M ! i) = m" "2 \<le> m"
  shows "loop_eq_fl [a..<b] r u v M = Inr (rows_from (next_row_fl r u v) a b (M ! a) M)"
  using assms
proof (induction "b - a" arbitrary: a M)
  case 0
  then show ?case by (simp add: rows_from_empty)
next
  case (Suc d)
  let ?f = "next_row_fl r u v"
  let ?M' = "M[Suc a := ?f (M ! a)]"
  from Suc.hyps(2) have ab: "a < b" and d: "d = b - Suc a" by auto
  have upt: "[a..<b] = a # [Suc a..<b]" using ab by (simp add: upt_conv_Cons)
  have step: "step_eq_fl r u v M a = Inr ?M'"
    using ab Suc.prems by (intro step_eq_fl_next_row) auto
  have IH: "loop_eq_fl [Suc a..<b] r u v ?M' = Inr (rows_from ?f (Suc a) b (?M' ! Suc a) ?M')"
  proof (rule Suc.hyps(1)[OF d])
    show "b < length ?M'" using Suc.prems(1) by simp
    show "\<forall>i<length ?M'. length (?M' ! i) = m"
    proof (intro allI impI)
      fix i assume "i < length ?M'"
      then have i: "i < length M" by simp
      have "a < length M" using ab Suc.prems(1) by simp
      then show "length (?M' ! i) = m"
        using Suc.prems(2) i by (cases "i = Suc a") (simp_all add: length_next_row_fl)
    qed
    show "2 \<le> m" by (rule Suc.prems(3))
  qed
  have "?M' ! Suc a = ?f (M ! a)" using ab Suc.prems(1) by simp
  then show ?case
    using step IH rows_from_step[OF ab Suc.prems(1), of ?f "M ! a"] by (simp add: upt)
qed

lemma length_linspace_fl: "linspace_fl s e num = Inr x \<Longrightarrow> length x = nat num"
  by (auto simp: linspace_fl_def Let_def split: if_splits)

lemma linspace_fl_Inr: "0 \<le> num \<Longrightarrow> \<exists>x. linspace_fl s e num = Inr x"
  by (auto simp: linspace_fl_def Let_def)

lemma solve_heat_equation_euler_fl_closed:
  assumes "2 \<le> Nx" "1 \<le> Nt"
    and "check_stability_fl D T Nt Nx L = Inr (s, r)"
  shows "\<exists>x U0 t. initialize_conditions_fl tanh_fl Nx L = Inr (x, U0, 10, 10) \<and>
           linspace_fl (Fin 0) T (Nt + 1) = Inr t \<and>
           solve_heat_equation_euler_fl tanh_fl L T D Nt Nx =
             Inr (x, t, iterates (next_row_fl r (Fin 20) (Fin 0)) U0 (nat Nt))"
proof -
  obtain x where x: "linspace_fl (Fin 0) L Nx = Inr x"
    using linspace_fl_Inr[of Nx] assms(1) by auto
  obtain t where t: "linspace_fl (Fin 0) T (Nt + 1) = Inr t"
    using linspace_fl_Inr[of "Nt + 1"] assms(2) by auto
  define U0 where "U0 = map (\<lambda>xi. fsub (Fin (real_of_int 10))
                            (fmul (Fin (real_of_int 10)) (tanh_fl (fsub (Fin (real_of_int 0)) xi)))) x"
  have ini: "initialize_conditions_fl tanh_fl Nx L = Inr (x, U0, 10, 10)"
    by (simp add: initialize_conditions_fl_def x U0_def)
  have lenU0: "length U0 = nat Nx" using length_linspace_fl[OF x] by (simp add: U0_def)
  from assms(3) obtain dt dx dx2 where
    dt: "py_fdiv_int T Nt = Inr dt" and dx: "py_fdiv_int L Nx = Inr dx" and
    dx2: "py_fpow2 dx = Inr dx2" and rr: "py_fdiv (fmul D dt) dx2 = Inr r"
    by (auto simp: check_stability_fl_def split: sum.splits)
  let ?Z = "replicate (nat (Nt + 1)) (replicate (nat Nx) (Fin 0))"
  let ?M = "?Z[0 := U0]"
  have z: "np_zeros_fl (Nt + 1) Nx = Inr ?Z" using assms(1,2) by (simp add: np_zeros_fl_def)
  have r0: "assign_row ?Z 0 U0 = Inr ?M"
    using assms(2) by (simp add: assign_row_def lenU0)
  have lenM: "length ?M = nat Nt + 1" using assms(2) by (simp add: nat_add_distrib)
  have rows: "\<forall>i<length ?M. length (?M ! i) = nat Nx"
    by (auto simp: nth_list_update lenU0)
  have M0: "?M ! 0 = U0" using assms(2) by simp
  have "loop_eq_fl [0..<nat Nt] r (Fin 20) (Fin 0) ?M =
        Inr (rows_from (next_row_fl r (Fin 20) (Fin 0)) 0 (nat Nt) (?M ! 0) ?M)"
    using lenM rows assms(1) by (intro loop_eq_fl_upt[where m = "nat Nx"]) simp_all
  also have "rows_from (next_row_fl r (Fin 20) (Fin 0)) 0 (nat Nt) (?M ! 0) ?M =
             iterates (next_row_fl r (Fin 20) (Fin 0)) U0 (nat Nt)"
    unfolding M0 using lenM M0 by (intro rows_from_iterates)
  finally have loop: "loop_eq_fl [0..<nat Nt] r (Fin 20) (Fin 0) ?M =
                      Inr (iterates (next_row_fl r (Fin 20) (Fin 0)) U0 (nat Nt))" .
  have "solve_heat_equation_euler_fl tanh_fl L T D Nt Nx =
        Inr (x, t, iterates (next_row_fl r (Fin 20) (Fin 0)) U0 (nat Nt))"
    unfolding solve_heat_equation_euler_fl_def using ini dt dx assms(3) z r0 dx2 rr loop t by simp
  then show ?thesis using ini t by blast
qed

lemma length_rows_iterates_fl:
  "row \<in> set (iterates (next_row_fl r a b) U n) \<Longrightarrow> length row = length U"
  by (auto dest: set_iterates simp: length_funpow_next_row_fl)

lemma py_fdiv_zero: "py_fdiv a (Fin 0) = Inl ZeroDivisionError"
  by (simp add: py_fdiv_def)

lemma solve_heat_equation_euler_fl_raises:
  assumes "0 \<le> Nx" "check_stability_fl D T Nt Nx L = Inl e"
  shows "solve_heat_equation_euler_fl tanh_fl L T D Nt Nx = Inl e"
proof -
  obtain x where x: "linspace_fl (Fin 0) L Nx = Inr x"
    using linspace_fl_Inr[of Nx] assms(1) by auto
  have ini: "\<exists>U0. initialize_conditions_fl tanh_fl Nx L = Inr (x, U0, 10, 10)"
    by (simp add: initialize_conditions_fl_def x)
  then obtain U0 where ini: "initialize_conditions_fl tanh_fl Nx L = Inr (x, U0, 10, 10)" ..
  show ?thesis
    using assms(2) unfolding solve_heat_equation_euler_fl_def ini
    by (auto simp: check_stability_fl_def split: sum.splits)
qed

text \<open>
  Claim C4, as amended. The only statements of the steppers that can raise on inputs of
  the right shape are the scalar computations of \<open>dx\<close>, \<open>dt\<close> and the ratio. Whenever
  these return, with whatever ratio (above \<open>0.5\<close>, infinite or not a number),
  \<open>explicit_heat\<close> and \<open>solve_heat_equation_euler\<close> run to completion and return a field of
  \<open>Nt + 1\<close> rows of \<open>Nx\<close> columns; \<open>explicit_heat\<close> returns the ratio with it, and
  \<open>check_stability\<close> reports the ratio and the verdict. Instability raises nothing.
\<close>

theorem unstable_run_completes:
  assumes "3 \<le> Nx" "1 \<le> Nt" "length U_init = nat Nx"
  shows "(scalars_fr Nx Nt L T D = Inr (alpha, dt) \<longrightarrow>
            (\<exists>U_all. explicit_heat_fl U_init Nx Nt L T D U1 U2 = Inr (U_all, alpha, dt) \<and>
                      length U_all = nat Nt + 1 \<and> (\<forall>row\<in>set U_all. length row = nat Nx))) \<and>
         (check_stability_fl D T Nt Nx L = Inr (s, r) \<longrightarrow>
            (\<exists>x t U. solve_heat_equation_euler_fl tanh_fl L T D Nt Nx = Inr (x, t, U) \<and>
                      length U = nat Nt + 1 \<and> (\<forall>row\<in>set U. length row = nat Nx)))"
proof (intro conjI impI)
  assume "scalars_fr Nx Nt L T D = Inr (alpha, dt)"
  then have "explicit_heat_fl U_init Nx Nt L T D U1 U2 =
         Inr (iterates (next_row_fl alpha U1 U2) U_init (nat Nt), alpha, dt)"
    using assms by (intro explicit_heat_fl_closed) auto
  then show "\<exists>U_all. explicit_heat_fl U_init Nx Nt L T D U1 U2 = Inr (U_all, alpha, dt) \<and>
                      length U_all = nat Nt + 1 \<and> (\<forall>row\<in>set U_all. length row = nat Nx)"
    using assms(3) by (auto simp: length_iterates dest: length_rows_iterates_fl)
next
  assume "check_stability_fl D T Nt Nx L = Inr (s, r)"
  then obtain x U0 t where
    ini: "initialize_conditions_fl tanh_fl Nx L = Inr (x, U0, 10, 10)" and
    sol: "solve_heat_equation_euler_fl tanh_fl L T D Nt Nx =
             Inr (x, t, iterates (next_row_fl r (Fin 20) (Fin 0)) U0 (nat Nt))"
    using solve_heat_equation_euler_fl_closed[of Nx Nt D T L s r tanh_fl] assms by auto
  have "length U0 = nat Nx"
    using ini by (auto simp: initialize_conditions_fl_def dest: length_linspace_fl split: sum.splits)
  then show "\<exists>x t U. solve_heat_equation_euler_fl tanh_fl L T D Nt Nx = Inr (x, t, U) \<and>
                      length U = nat Nt + 1 \<and> (\<forall>row\<in>set U. length row = nat Nx)"
    using sol by (auto simp: length_iterates dest: length_rows_iterates_fl)
qed

theorem unstable_run_completes_witness:
  "scalars_fr 1500 100 (Fin 1) (Fin 1) (Fin (3602879701896397 / 2 ^ 56)) =
     Inr (Fin (4941207454248601 / 2 ^ 42), Fin (5764607523034235 / 2 ^ 59)) \<and>
   (5 / 10 :: real) < 4941207454248601 / 2 ^ 42 \<and>
   (\<exists>U_all. explicit_heat_fl (replicate 1500 (Fin 10)) 1500 100 (Fin 1) (Fin 1)
                (Fin (3602879701896397 / 2 ^ 56)) (Fin 20) (Fin 0) =
               Inr (U_all, Fin (4941207454248601 / 2 ^ 42), Fin (5764607523034235 / 2 ^ 59)) \<and>
             length U_all = nat 100 + 1 \<and> (\<forall>row\<in>set U_all. length row = nat 1500)) \<and>
   check_stability_fl (Fin (3602879701896397 / 2 ^ 56)) (Fin 1) 100 1500 (Fin 1) =
     Inr (False, Fin 1125) \<and>
   (\<forall>tanh_fl. \<exists>x t U.
      solve_heat_equation_euler_fl tanh_fl (Fin 1) (Fin 1) (Fin (3602879701896397 / 2 ^ 56)) 100 1500 =
        Inr (x, t, U) \<and>
      length U = nat 100 + 1 \<and> (\<forall>row\<in>set U. length row = nat 1500))"
proof -
  have a1: "fl_round (real_of_int 1499) = Fin 1499"
    by (rule fl_roundI[where e = "(- 42)" and m = "6592671720144896"]) (simp_all add: power_int_minus)
  have a2: "fl_round (1 / 1499) = Fin (6153016702371431 / 2 ^ 63)"
    by (rule fl_roundI[where e = "(- 63)" and m = "6153016702371431"]) (simp_all add: power_int_minus)
  have a3: "py_fdiv_int (Fin 1) 1499 = Inr (Fin (6153016702371431 / 2 ^ 63))"
    by (rule py_fdiv_int_Fin[OF a1 _ a2]) simp
  have a4: "fl_round (real_of_int 100) = Fin 100"
    by (rule fl_roundI[where e = "(- 46)" and m = "7036874417766400"]) (simp_all add: power_int_minus)
  have a5: "fl_round (1 / 100) = Fin (5764607523034235 / 2 ^ 59)"
    by (rule fl_roundI[where e = "(- 59)" and m = "5764607523034235"]) (simp_all add: power_int_minus)
  have a6: "py_fdiv_int (Fin 1) 100 = Inr (Fin (5764607523034235 / 2 ^ 59))"
    by (rule py_fdiv_int_Fin[OF a4 _ a5]) simp
  have a7: "fl_round ((6153016702371431 / 2 ^ 63) * (6153016702371431 / 2 ^ 63)) = Fin (8406523153073175 / 2 ^ 74)"
    by (rule fl_roundI[where e = "(- 74)" and m = "8406523153073175"]) (simp_all add: power_int_minus)
  have a8: "py_fpow2 (Fin (6153016702371431 / 2 ^ 63)) = Inr (Fin (8406523153073175 / 2 ^ 74))"
    by (rule py_fpow2_Fin[OF a7])
  have a9: "fl_round ((3602879701896397 / 2 ^ 56) * (5764607523034235 / 2 ^ 59)) = Fin (1152921504606847 / 2 ^ 61)"
    by (rule fl_roundI[where e = "(- 63)" and m = "4611686018427388"]) (simp_all add: power_int_minus)
  have a10: "fmul (Fin (3602879701896397 / 2 ^ 56)) (Fin (5764607523034235 / 2 ^ 59)) = Fin (1152921504606847 / 2 ^ 61)"
    unfolding fmul.simps by (rule a9)
  have a11: "fl_round ((1152921504606847 / 2 ^ 61) / (8406523153073175 / 2 ^ 74)) = Fin (4941207454248601 / 2 ^ 42)"
    by (rule fl_roundI[where e = "(- 42)" and m = "4941207454248601"]) (simp_all add: power_int_minus)
  have a12: "py_fdiv (Fin (1152921504606847 / 2 ^ 61)) (Fin (8406523153073175 / 2 ^ 74)) = Inr (Fin (4941207454248601 / 2 ^ 42))"
    by (rule py_fdiv_Fin[OF _ a11]) simp
  have a13: "py_fdiv_int (Fin 1) 100 = Inr (Fin (5764607523034235 / 2 ^ 59))"
    by (rule py_fdiv_int_Fin[OF a4 _ a5]) simp
  have a14: "fl_round (real_of_int 1500) = Fin 1500"
    by (rule fl_roundI[where e = "(- 42)" and m = "6597069766656000"]) (simp_all add: power_int_minus)
  have a15: "fl_round (1 / 1500) = Fin (6148914691236517 / 2 ^ 63)"
    by (rule fl_roundI[where e = "(- 63)" and m = "6148914691236517"]) (simp_all add: power_int_minus)
  have a16: "py_fdiv_int (Fin 1) 1500 = Inr (Fin (6148914691236517 / 2 ^ 63))"
    by (rule py_fdiv_int_Fin[OF a14 _ a15]) simp
  have a17: "fl_round ((6148914691236517 / 2 ^ 63) * (6148914691236517 / 2 ^ 63)) = Fin (4197659095884129 / 2 ^ 73)"
    by (rule fl_roundI[where e = "(- 74)" and m = "8395318191768258"]) (simp_all add: power_int_minus)
  have a18: "py_fpow2 (Fin (6148914691236517 / 2 ^ 63)) = Inr (Fin (4197659095884129 / 2 ^ 73))"
    by (rule py_fpow2_Fin[OF a17])
  have a19: "fmul (Fin (3602879701896397 / 2 ^ 56)) (Fin (5764607523034235 / 2 ^ 59)) = Fin (1152921504606847 / 2 ^ 61)"
    unfolding fmul.simps by (rule a9)
  have a20: "fl_round ((1152921504606847 / 2 ^ 61) / (4197659095884129 / 2 ^ 73)) = Fin 1125"
    by (rule fl_roundI[where e = "(- 42)" and m = "4947802324992000"]) (simp_all add: power_int_minus)
  have a21: "py_fdiv (Fin (1152921504606847 / 2 ^ 61)) (Fin (4197659095884129 / 2 ^ 73)) = Inr (Fin 1125)"
    by (rule py_fdiv_Fin[OF _ a20]) simp
  have a22: "fle (Fin 1125) (Fin (5 / 10)) = False"
    by simp
  have i: "(1500::int) - 1 = 1499" by simp
  have s: "scalars_fr 1500 100 (Fin 1) (Fin 1) (Fin (3602879701896397 / 2 ^ 56)) =
     Inr (Fin (4941207454248601 / 2 ^ 42), Fin (5764607523034235 / 2 ^ 59))"
    by (simp only: scalars_fr_def i a3 a6 a8 a10 a12 sum.case prod.case)
  have c: "check_stability_fl (Fin (3602879701896397 / 2 ^ 56)) (Fin 1) 100 1500 (Fin 1) =
     Inr (False, Fin 1125)"
    by (simp only: check_stability_fl_def a13 a16 a18 a19 a21 a22 sum.case prod.case)
  have l: "(5 / 10 :: real) < 4941207454248601 / 2 ^ 42" by simp
  have h: "(3::int) \<le> 1500" "(1::int) \<le> 100" "length (replicate 1500 (Fin 10)) = nat 1500"
    by simp_all
  have e: "\<exists>U_all. explicit_heat_fl (replicate 1500 (Fin 10)) 1500 100 (Fin 1) (Fin 1)
                (Fin (3602879701896397 / 2 ^ 56)) (Fin 20) (Fin 0) =
               Inr (U_all, Fin (4941207454248601 / 2 ^ 42), Fin (5764607523034235 / 2 ^ 59)) \<and>
             length U_all = nat 100 + 1 \<and> (\<forall>row\<in>set U_all. length row = nat 1500)"
    using unstable_run_completes[OF h] s by blast
  have v: "\<forall>tanh_fl. \<exists>x t U.
      solve_heat_equation_euler_fl tanh_fl (Fin 1) (Fin 1) (Fin (3602879701896397 / 2 ^ 56)) 100 1500 =
        Inr (x, t, U) \<and>
      length U = nat 100 + 1 \<and> (\<forall>row\<in>set U. length row = nat 1500)"
    using unstable_run_completes[OF h] c by blast
  show ?thesis using s l e c v by (intro conjI)
qed

text \<open>
  Claim C4 as stated fails in double precision. For \<open>L = 2\<^sup>-\<^sup>6\<^sup>0\<^sup>0\<close>, \<open>T = D = 1.0\<close>, \<open>Nt = 1\<close> and
  \<open>Nx = 3\<close> the ratio is far above \<open>0.5\<close> (\<open>2\<^sup>1\<^sup>2\<^sup>0\<^sup>2\<close> for \<open>explicit_heat\<close>), \<open>dx**2\<close> underflows
  to zero, and the division by it raises \<open>ZeroDivisionError\<close> in \<open>explicit_heat\<close>, in
  \<open>check_stability\<close> and so in \<open>solve_heat_equation_euler\<close>: no field is returned.
\<close>

theorem underflow_raises_counterexample:
  "ratio_fr (1 / 2 ^ 600) 1 1 1 3 = 2 ^ 1202 \<and>
   scalars_fr 3 1 (Fin (1 / 2 ^ 600)) (Fin 1) (Fin 1) = Inl ZeroDivisionError \<and>
   explicit_heat_fl [Fin 20, Fin 10, Fin 0] 3 1 (Fin (1 / 2 ^ 600)) (Fin 1) (Fin 1) (Fin 20) (Fin 0) =
     Inl ZeroDivisionError \<and>
   ratio_eq (1 / 2 ^ 600) 1 1 1 3 = 9 * 2 ^ 1200 \<and>
   check_stability_fl (Fin 1) (Fin 1) 1 3 (Fin (1 / 2 ^ 600)) = Inl ZeroDivisionError \<and>
   (\<forall>tanh_fl. solve_heat_equation_euler_fl tanh_fl (Fin (1 / 2 ^ 600)) (Fin 1) (Fin 1) 1 3 =
      Inl ZeroDivisionError)"
proof -
  have b1: "fl_round (real_of_int 2) = Fin 2"
    by (rule fl_roundI[where e = "(- 51)" and m = "4503599627370496"]) (simp_all add: power_int_minus)
  have b2: "fl_round ((1 / 2 ^ 600) / 2) = Fin (1 / 2 ^ 601)"
    by (rule fl_roundI[where e = "(- 653)" and m = "4503599627370496"]) (simp_all add: power_int_minus)
  have b3: "py_fdiv_int (Fin (1 / 2 ^ 600)) 2 = Inr (Fin (1 / 2 ^ 601))"
    by (rule py_fdiv_int_Fin[OF b1 _ b2]) simp
  have b4: "fl_round (real_of_int 1) = Fin 1"
    by (rule fl_roundI[where e = "(- 52)" and m = "4503599627370496"]) (simp_all add: power_int_minus)
  have b5: "fl_round (1 / 1) = Fin 1"
    by (rule fl_roundI[where e = "(- 52)" and m = "4503599627370496"]) (simp_all add: power_int_minus)
  have b6: "py_fdiv_int (Fin 1) 1 = Inr (Fin 1)"
    by (rule py_fdiv_int_Fin[OF b4 _ b5]) simp
  have b7: "fl_round ((1 / 2 ^ 601) * (1 / 2 ^ 601)) = Fin 0"
    by (rule fl_round_tiny) (simp add: power_int_minus)
  have b8: "py_fpow2 (Fin (1 / 2 ^ 601)) = Inr (Fin 0)"
    by (rule py_fpow2_Fin[OF b7])
  have b9: "py_fdiv_int (Fin 1) 1 = Inr (Fin 1)"
    by (rule py_fdiv_int_Fin[OF b4 _ b5]) simp
  have b10: "fl_round (real_of_int 3) = Fin 3"
    by (rule fl_roundI[where e = "(- 51)" and m = "6755399441055744"]) (simp_all add: power_int_minus)
  have b11: "fl_round ((1 / 2 ^ 600) / 3) = Fin (6004799503160661 / 2 ^ 654)"
    by (rule fl_roundI[where e = "(- 654)" and m = "6004799503160661"]) (simp_all add: power_int_minus)
  have b12: "py_fdiv_int (Fin (1 / 2 ^ 600)) 3 = Inr (Fin (6004799503160661 / 2 ^ 654))"
    by (rule py_fdiv_int_Fin[OF b10 _ b11]) simp
  have b13: "fl_round ((6004799503160661 / 2 ^ 654) * (6004799503160661 / 2 ^ 654)) = Fin 0"
    by (rule fl_round_tiny) (simp add: power_int_minus)
  have b14: "py_fpow2 (Fin (6004799503160661 / 2 ^ 654)) = Inr (Fin 0)"
    by (rule py_fpow2_Fin[OF b13])
  have i: "(3::int) - 1 = 2" by simp
  have s: "scalars_fr 3 1 (Fin (1 / 2 ^ 600)) (Fin 1) (Fin 1) = Inl ZeroDivisionError"
    by (simp only: scalars_fr_def i b3 b6 b8 py_fdiv_zero sum.case prod.case)
  have e: "explicit_heat_fl [Fin 20, Fin 10, Fin 0] 3 1 (Fin (1 / 2 ^ 600)) (Fin 1) (Fin 1) (Fin 20) (Fin 0) =
     Inl ZeroDivisionError"
    by (simp only: explicit_heat_fl_def s sum.case)
  have c: "check_stability_fl (Fin 1) (Fin 1) 1 3 (Fin (1 / 2 ^ 600)) = Inl ZeroDivisionError"
    by (simp only: check_stability_fl_def b9 b12 b14 py_fdiv_zero sum.case prod.case)
  have v: "\<forall>tanh_fl. solve_heat_equation_euler_fl tanh_fl (Fin (1 / 2 ^ 600)) (Fin 1) (Fin 1) 1 3 =
      Inl ZeroDivisionError"
    using solve_heat_equation_euler_fl_raises[OF _ c] by simp
  have r1: "ratio_fr (1 / 2 ^ 600) 1 1 1 3 = 2 ^ 1202"
    by (simp add: ratio_fr_def power2_eq_square)
  have r2: "ratio_eq (1 / 2 ^ 600) 1 1 1 3 = 9 * 2 ^ 1200"
    by (simp add: ratio_eq_def power2_eq_square)
  show ?thesis using r1 s e r2 c v by (intro conjI)
qed

text \<open>
  Claim C6 holds for \<open>initial_profile\<close> of heat\_eq\_fr.py, which computes the
  specification's profile with the shape parameter \<open>0.1\<close>, and fails for
  \<open>initialize_conditions\<close> of heat\_equation.py, which computes \<open>A - B * tanh (c - x)\<close> with
  \<open>A = B = 10\<close> and \<open>c = 0\<close>: no midpoint, no shape parameter. For \<open>Nx = 3\<close> and \<open>L = 1\<close> the
  grid is \<open>[0, 0.5, 1]\<close>. At the midpoint \<open>0.5\<close> the specification's profile is \<open>A = 10\<close> for
  every shape parameter and the code's sample is \<open>10 + 10 * tanh 0.5\<close>, above \<open>10\<close>; at the
  left end the code's sample is \<open>10\<close> and the profile rises from there, where the
  function's own documentation has \<open>A + B = 20\<close> at the left and \<open>A - B = 0\<close> at the right.
\<close>

theorem initialize_conditions_profile:
  "initial_profile 10 10 1 [0, 1 / 2, 1] = spec_profile 10 10 1 (1 / 10) [0, 1 / 2, 1] \<and>
   initialize_conditions 3 1 =
     Inr ([0, 1 / 2, 1],
          [10 - 10 * tanh (0 - 0), 10 - 10 * tanh (0 - 1 / 2), 10 - 10 * tanh (0 - 1)],
          10, 10) \<and>
   (\<forall>scale. spec_profile 10 10 1 scale [0, 1 / 2, 1] ! 1 = 10) \<and>
   (10 :: real) < 10 - 10 * tanh (0 - 1 / 2) \<and>
   (10 - 10 * tanh (0 - 0) :: real) = 10 \<and>
   (10 - 10 * tanh (0 - 0) :: real) < 10 - 10 * tanh (0 - 1)"
proof (intro conjI)
  show "initial_profile 10 10 1 [0, 1 / 2, 1] = spec_profile 10 10 1 (1 / 10) [0, 1 / 2, 1]"
    by (simp add: initial_profile_def spec_profile_def)
  have x: "linspace_pts 0 1 3 = [0, 1 / 2, 1]"
    by (simp add: linspace_pts_def upt_rec numeral_3_eq_3)
  show "initialize_conditions 3 1 =
     Inr ([0, 1 / 2, 1],
          [10 - 10 * tanh (0 - 0), 10 - 10 * tanh (0 - 1 / 2), 10 - 10 * tanh (0 - 1)],
          10, 10)"
    by (simp add: initialize_conditions_def linspace_def x)
  show "\<forall>scale. spec_profile 10 10 1 scale [0, 1 / 2, 1] ! 1 = 10"
    by (simp add: spec_profile_def)
  have "tanh (- (1 / 2) :: real) < 0" by (simp only: tanh_real_neg_iff)
  then show "(10 :: real) < 10 - 10 * tanh (0 - 1 / 2)" by simp
  show "(10 - 10 * tanh (0 - 0) :: real) = 10" by simp
  have "tanh (- 1 :: real) < 0" by (simp only: tanh_real_neg_iff)
  then show "(10 - 10 * tanh (0 - 0) :: real) < 10 - 10 * tanh (0 - 1)" by simp
qed

lemma convex_step_bounds:
  fixes r x y z lo hi :: real
  assumes "0 \<le> r" "r \<le> 1 / 2" "lo \<le> x" "x \<le> hi" "lo \<le> y" "y \<le> hi" "lo \<le> z" "z \<le> hi"
  shows "lo \<le> x + r * (y - 2 * x + z) \<and> x + r * (y - 2 * x + z) \<le> hi"
proof -
  have eq: "x + r * (y - 2 * x + z) = (1 - 2 * r) * x + r * y + r * z"
    by (simp add: algebra_simps)
  have c: "0 \<le> 1 - 2 * r" using assms(2) by simp
  have "(1 - 2 * r) * lo \<le> (1 - 2 * r) * x" "r * lo \<le> r * y" "r * lo \<le> r * z"
    using assms c by (simp_all add: mult_left_mono)
  then have "(1 - 2 * r) * lo + r * lo + r * lo \<le> (1 - 2 * r) * x + r * y + r * z"
    by linarith
  moreover have "(1 - 2 * r) * lo + r * lo + r * lo = lo" by (simp add: algebra_simps)
  moreover
  have "(1 - 2 * r) * x \<le> (1 - 2 * r) * hi" "r * y \<le> r * hi" "r * z \<le> r * hi"
    using assms c by (simp_all add: mult_left_mono)
  then have "(1 - 2 * r) * x + r * y + r * z \<le> (1 - 2 * r) * hi + r * hi + r * hi"
    by linarith
  moreover have "(1 - 2 * r) * hi + r * hi + r * hi = hi" by (simp add: algebra_simps)
  ultimately show ?thesis unfolding eq by simp
qed

lemma next_row_bounds:
  assumes "0 \<le> r" "r \<le> 1 / 2" "lo \<le> a" "a \<le> hi" "lo \<le> b" "b \<le> hi"
    and U: "\<forall>v\<in>set U. lo \<le> v \<and> v \<le> hi"
  shows "\<forall>v\<in>set (next_row r a b U). lo \<le> v \<and> v \<le> hi"
proof
  fix v assume "v \<in> set (next_row r a b U)"
  then obtain i where i: "i < length U" and v: "v = next_row r a b U ! i"
    by (auto simp: in_set_conv_nth length_next_row)
  show "lo \<le> v \<and> v \<le> hi"
  proof (cases "i = 0 \<or> i = length U - 1")
    case True
    then show ?thesis using assms(3-6) i v by (auto simp: nth_next_row)
  next
    case False
    then have "i + 1 < length U" "i - 1 < length U" using i by linarith+
    then have "lo \<le> U ! i \<and> U ! i \<le> hi" "lo \<le> U ! (i + 1) \<and> U ! (i + 1) \<le> hi"
      "lo \<le> U ! (i - 1) \<and> U ! (i - 1) \<le> hi"
      using U i by (simp_all only: nth_mem)
    then have "lo \<le> U ! i + r * (U ! (i + 1) - 2 * U ! i + U ! (i - 1)) \<and>
               U ! i + r * (U ! (i + 1) - 2 * U ! i + U ! (i - 1)) \<le> hi"
      using assms(1,2) by (intro convex_step_bounds) simp_all
    then show ?thesis using False i v by (simp add: nth_next_row)
  qed
qed

lemma funpow_next_row_bounds:
  assumes "0 \<le> r" "r \<le> 1 / 2" "lo \<le> a" "a \<le> hi" "lo \<le> b" "b \<le> hi"
    and "\<forall>v\<in>set U. lo \<le> v \<and> v \<le> hi"
  shows "\<forall>v\<in>set ((next_row r a b ^^ k) U). lo \<le> v \<and> v \<le> hi"
proof (induction k)
  case 0
  then show ?case using assms(7) by simp
next
  case (Suc k)
  have "(next_row r a b ^^ Suc k) U = next_row r a b ((next_row r a b ^^ k) U)" by simp
  moreover have "\<forall>v\<in>set (next_row r a b ((next_row r a b ^^ k) U)). lo \<le> v \<and> v \<le> hi"
    using assms(1-6) Suc.IH by (rule next_row_bounds)
  ultimately show ?case by (simp only:)
qed

lemma iterates_bounds:
  assumes "0 \<le> r" "r \<le> 1 / 2" "U \<noteq> []"
  shows "\<forall>row\<in>set (iterates (next_row r a b) U m). \<forall>v\<in>set row.
           min (min a b) (Min (set U)) \<le> v \<and> v \<le> max (max a b) (Max (set U))"
proof (intro ballI)
  let ?lo = "min (min a b) (Min (set U))" and ?hi = "max (max a b) (Max (set U))"
  fix row v assume "row \<in> set (iterates (next_row r a b) U m)" and v: "v \<in> set row"
  then obtain k where row: "row = (next_row r a b ^^ k) U" by (auto dest: set_iterates)
  have U: "\<forall>v\<in>set U. ?lo \<le> v \<and> v \<le> ?hi"
  proof
    fix u assume "u \<in> set U"
    then have "Min (set U) \<le> u" "u \<le> Max (set U)" by simp_all
    then show "?lo \<le> u \<and> u \<le> ?hi" by (simp add: min_le_iff_disj le_max_iff_disj)
  qed
  have "\<forall>v\<in>set ((next_row r a b ^^ k) U). ?lo \<le> v \<and> v \<le> ?hi"
    using assms(1,2) U by (intro funpow_next_row_bounds) simp_all
  then show "?lo \<le> v \<and> v \<le> ?hi" using v row by simp
qed

lemma ratio_fr_nonneg: "0 < T \<Longrightarrow> 0 < D \<Longrightarrow> 1 \<le> Nt \<Longrightarrow> 0 \<le> ratio_fr L T D Nt Nx"
  by (simp add: ratio_fr_def)

lemma ratio_eq_nonneg: "0 < T \<Longrightarrow> 0 < D \<Longrightarrow> 1 \<le> Nt \<Longrightarrow> 0 \<le> ratio_eq L T D Nt Nx"
  by (simp add: ratio_eq_def)

text \<open>
  Claim C7, as amended. When the update is computed in exact real arithmetic, for valid
  inputs with a stability ratio of at most \<open>0.5\<close> every value in every row of the returned
  field lies between the smallest and the largest of the two boundary constants and the
  samples of the initial profile: a step keeps the bound, so it holds for all \<open>Nt\<close>
  steps. The bound is a property of the scheme; the values stored in double precision
  can leave the interval by rounding.
\<close>

theorem maximum_principle:
  assumes "3 \<le> Nx" "1 \<le> Nt" "0 < L" "0 < T" "0 < D" "length U_init = nat Nx"
  shows "(ratio_fr L T D Nt Nx \<le> 5 / 10 \<longrightarrow>
           \<not> isl (explicit_heat U_init Nx Nt L T D U1 U2) \<and>
           (\<forall>row\<in>set (field_fr (explicit_heat U_init Nx Nt L T D U1 U2)). \<forall>v\<in>set row.
              min (min U1 U2) (Min (set U_init)) \<le> v \<and>
              v \<le> max (max U1 U2) (Max (set U_init)))) \<and>
         (ratio_eq L T D Nt Nx \<le> 5 / 10 \<longrightarrow>
           \<not> isl (solve_heat_equation_euler L T D Nt Nx) \<and>
           (\<forall>row\<in>set (field_eq (solve_heat_equation_euler L T D Nt Nx)). \<forall>v\<in>set row.
              min (min 20 0) (Min (set (profile_eq L Nx))) \<le> v \<and>
              v \<le> max (max 20 0) (Max (set (profile_eq L Nx)))))"
proof (intro conjI impI)
  have run: "explicit_heat U_init Nx Nt L T D U1 U2 =
             Inr (iterates (next_row (ratio_fr L T D Nt Nx) U1 U2) U_init (nat Nt),
                  ratio_fr L T D Nt Nx, T / real_of_int Nt)"
    using assms by (intro explicit_heat_closed) auto
  show "\<not> isl (explicit_heat U_init Nx Nt L T D U1 U2)" unfolding run by simp
  assume "ratio_fr L T D Nt Nx \<le> 5 / 10"
  moreover have "0 \<le> ratio_fr L T D Nt Nx" using assms by (intro ratio_fr_nonneg)
  moreover have "U_init \<noteq> []" using assms(1,6) by auto
  ultimately show "\<forall>row\<in>set (field_fr (explicit_heat U_init Nx Nt L T D U1 U2)). \<forall>v\<in>set row.
              min (min U1 U2) (Min (set U_init)) \<le> v \<and>
              v \<le> max (max U1 U2) (Max (set U_init))"
    unfolding run field_fr_def using iterates_bounds[of "ratio_fr L T D Nt Nx" U_init U1 U2 "nat Nt"]
    by simp
next
  have run: "solve_heat_equation_euler L T D Nt Nx =
             Inr (linspace_pts 0 L Nx, linspace_pts 0 T (Nt + 1),
                  iterates (next_row (ratio_eq L T D Nt Nx) 20 0) (profile_eq L Nx) (nat Nt))"
    using assms by (intro solve_heat_equation_euler_closed) auto
  show "\<not> isl (solve_heat_equation_euler L T D Nt Nx)" unfolding run by simp
  assume "ratio_eq L T D Nt Nx \<le> 5 / 10"
  moreover have "0 \<le> ratio_eq L T D Nt Nx" using assms by (intro ratio_eq_nonneg)
  moreover have "length (profile_eq L Nx) = nat Nx" by (rule length_profile_eq)
  then have "profile_eq L Nx \<noteq> []" using assms(1) by auto
  ultimately show "\<forall>row\<in>set (field_eq (solve_heat_equation_euler L T D Nt Nx)). \<forall>v\<in>set row.
              min (min 20 0) (Min (set (profile_eq L Nx))) \<le> v \<and>
              v \<le> max (max 20 0) (Max (set (profile_eq L Nx)))"
    unfolding run field_eq_def
    using iterates_bounds[of "ratio_eq L T D Nt Nx" "profile_eq L Nx" 20 0 "nat Nt"]
    by simp
qed

theorem maximum_principle_witness:
  "ratio_fr 1 1 (1 / 20) 2 3 \<le> 5 / 10 \<and>
   \<not> isl (explicit_heat [19, 10, 1] 3 2 1 1 (1 / 20) 20 0) \<and>
   min (min 20 0) (Min (set [19, 10, 1]))
     \<le> field_fr (explicit_heat [19, 10, 1] 3 2 1 1 (1 / 20) 20 0) ! 2 ! 1 \<and>
   field_fr (explicit_heat [19, 10, 1] 3 2 1 1 (1 / 20) 20 0) ! 2 ! 1
     \<le> max (max 20 0) (Max (set [19, 10, 1])) \<and>
   ratio_eq 1 1 (1 / 20) 2 3 \<le> 5 / 10 \<and>
   \<not> isl (solve_heat_equation_euler 1 1 (1 / 20) 2 3) \<and>
   min (min 20 0) (Min (set (profile_eq 1 3)))
     \<le> field_eq (solve_heat_equation_euler 1 1 (1 / 20) 2 3) ! 2 ! 1 \<and>
   field_eq (solve_heat_equation_euler 1 1 (1 / 20) 2 3) ! 2 ! 1
     \<le> max (max 20 0) (Max (set (profile_eq 1 3)))"
proof -
  let ?F = "field_fr (explicit_heat [19, 10, 1] 3 2 1 1 (1 / 20) 20 0)"
  let ?U = "field_eq (solve_heat_equation_euler 1 1 (1 / 20) 2 3)"
  have h: "(3::int) \<le> 3" "(1::int) \<le> 2" "(0::real) < 1" "(0::real) < 1" "(0::real) < 1 / 20"
    "length [19, 10, 1::real] = nat 3"
    by simp_all
  have fr: "ratio_fr 1 1 (1 / 20) 2 3 \<le> 5 / 10" by (simp add: ratio_fr_def power2_eq_square)
  have eq: "ratio_eq 1 1 (1 / 20) 2 3 \<le> 5 / 10" by (simp add: ratio_eq_def power2_eq_square)
  have "explicit_heat [19, 10, 1] 3 2 1 1 (1 / 20) 20 0 =
        Inr (iterates (next_row (ratio_fr 1 1 (1 / 20) 2 3) 20 0) [19, 10, 1] (nat 2),
             ratio_fr 1 1 (1 / 20) 2 3, 1 / real_of_int 2)"
    by (rule explicit_heat_closed) simp_all
  then have lenF: "length ?F = 3" "length (?F ! 2) = 3"
    by (simp_all add: field_fr_def length_iterates nth_iterates length_funpow_next_row)
  have "solve_heat_equation_euler 1 1 (1 / 20) 2 3 =
        Inr (linspace_pts 0 1 3, linspace_pts 0 1 (2 + 1),
             iterates (next_row (ratio_eq 1 1 (1 / 20) 2 3) 20 0) (profile_eq 1 3) (nat 2))"
    by (rule solve_heat_equation_euler_closed) simp_all
  then have lenU: "length ?U = 3" "length (?U ! 2) = 3"
    by (simp_all add: field_eq_def length_iterates nth_iterates length_funpow_next_row
        length_profile_eq)
  have F: "?F ! 2 \<in> set ?F" "?F ! 2 ! 1 \<in> set (?F ! 2)" using lenF by simp_all
  have U: "?U ! 2 \<in> set ?U" "?U ! 2 ! 1 \<in> set (?U ! 2)" using lenU by simp_all
  show ?thesis
    using maximum_principle[OF h, of 20 0] fr eq F U by blast
qed

lemma step_fr_fl_three:
  "step_fr_fl r a b [u0, u1, u2] =
     Inr [a, fadd u1 (fmul r (fadd (fsub u2 (fmul (Fin 2) u1)) u0)), b]"
  by (simp add: step_fr_fl_def stencil_fl_def set_ends_def set_mid_def mid_def
      vadd_fl_def vsub_fl_def smul_fl_def)

lemma explicit_heat_fl_one_step:
  assumes "scalars_fr 3 1 L T D = Inr (alpha, dt)"
  shows "explicit_heat_fl [u0, u1, u2] 3 1 L T D a b =
         Inr ([[u0, u1, u2], [a, fadd u1 (fmul alpha (fadd (fsub u2 (fmul (Fin 2) u1)) u0)), b]],
              alpha, dt)"
  by (simp add: explicit_heat_fl_def assms np_zeros_fl_def assign_row_def step_fr_fl_three
      numeral_2_eq_2 numeral_3_eq_3)

text \<open>
  Claim C7 as stated fails in double precision. For the initial profile \<open>[0.1, 0.2, 0.1]\<close>,
  \<open>Nx = 3\<close>, \<open>Nt = 1\<close>, \<open>L = T = 1.0\<close>, \<open>D = 0.125\<close> and both boundary values \<open>0.1\<close>, the
  ratio is exactly \<open>0.5\<close> and \<open>explicit_heat\<close> stores
  \<open>0.2 + 0.5 * ((0.1 - 0.4) + 0.1) = 0.09999999999999999\<close> in the middle of row 1: the
  difference \<open>0.1 - 0.4\<close> is a tie and rounds away from \<open>-0.3\<close>. The value is below
  \<open>0.1\<close>, the smallest of the boundary values and the initial samples.
\<close>

theorem rounding_leaves_bounds_counterexample:
  "fl_round (1 / 10) = Fin (3602879701896397 / 2 ^ 55) \<and>
   fl_round (2 / 10) = Fin (3602879701896397 / 2 ^ 54) \<and>
   scalars_fr 3 1 (Fin 1) (Fin 1) (Fin (1 / 2 ^ 3)) = Inr (Fin (1 / 2 ^ 1), Fin 1) \<and>
   explicit_heat_fl [Fin (3602879701896397 / 2 ^ 55), Fin (3602879701896397 / 2 ^ 54), Fin (3602879701896397 / 2 ^ 55)] 3 1 (Fin 1) (Fin 1) (Fin (1 / 2 ^ 3))
       (Fin (3602879701896397 / 2 ^ 55)) (Fin (3602879701896397 / 2 ^ 55)) =
     Inr ([[Fin (3602879701896397 / 2 ^ 55), Fin (3602879701896397 / 2 ^ 54), Fin (3602879701896397 / 2 ^ 55)],
           [Fin (3602879701896397 / 2 ^ 55), Fin (7205759403792793 / 2 ^ 56), Fin (3602879701896397 / 2 ^ 55)]],
          Fin (1 / 2 ^ 1), Fin 1) \<and>
   (7205759403792793 / 2 ^ 56 :: real) < 3602879701896397 / 2 ^ 55"
proof -
  have b1: "fl_round (real_of_int 2) = Fin 2"
    by (rule fl_roundI[where e = "(- 51)" and m = "4503599627370496"]) (simp_all add: power_int_minus)
  have b2: "fl_round (1 / 2) = Fin (1 / 2 ^ 1)"
    by (rule fl_roundI[where e = "(- 53)" and m = "4503599627370496"]) (simp_all add: power_int_minus)
  have b3: "py_fdiv_int (Fin 1) 2 = Inr (Fin (1 / 2 ^ 1))"
    by (rule py_fdiv_int_Fin[OF b1 _ b2]) simp
  have b4: "fl_round (real_of_int 1) = Fin 1"
    by (rule fl_roundI[where e = "(- 52)" and m = "4503599627370496"]) (simp_all add: power_int_minus)
  have b5: "fl_round (1 / 1) = Fin 1"
    by (rule fl_roundI[where e = "(- 52)" and m = "4503599627370496"]) (simp_all add: power_int_minus)
  have b6: "py_fdiv_int (Fin 1) 1 = Inr (Fin 1)"
    by (rule py_fdiv_int_Fin[OF b4 _ b5]) simp
  have b7: "fl_round ((1 / 2 ^ 1) * (1 / 2 ^ 1)) = Fin (1 / 2 ^ 2)"
    by (rule fl_roundI[where e = "(- 54)" and m = "4503599627370496"]) (simp_all add: power_int_minus)
  have b8: "py_fpow2 (Fin (1 / 2 ^ 1)) = Inr (Fin (1 / 2 ^ 2))"
    by (rule py_fpow2_Fin[OF b7])
  have b9: "fl_round ((1 / 2 ^ 3) * 1) = Fin (1 / 2 ^ 3)"
    by (rule fl_roundI[where e = "(- 55)" and m = "4503599627370496"]) (simp_all add: power_int_minus)
  have b10: "fmul (Fin (1 / 2 ^ 3)) (Fin 1) = Fin (1 / 2 ^ 3)"
    unfolding fmul.simps by (rule b9)
  have b11: "fl_round ((1 / 2 ^ 3) / (1 / 2 ^ 2)) = Fin (1 / 2 ^ 1)"
    by (rule fl_roundI[where e = "(- 53)" and m = "4503599627370496"]) (simp_all add: power_int_minus)
  have b12: "py_fdiv (Fin (1 / 2 ^ 3)) (Fin (1 / 2 ^ 2)) = Inr (Fin (1 / 2 ^ 1))"
    by (rule py_fdiv_Fin[OF _ b11]) simp
  have b13: "fl_round (2 * (3602879701896397 / 2 ^ 54)) = Fin (3602879701896397 / 2 ^ 53)"
    by (rule fl_roundI[where e = "(- 54)" and m = "7205759403792794"]) (simp_all add: power_int_minus)
  have b14: "fmul (Fin 2) (Fin (3602879701896397 / 2 ^ 54)) = Fin (3602879701896397 / 2 ^ 53)"
    unfolding fmul.simps by (rule b13)
  have b15: "fl_round ((3602879701896397 / 2 ^ 55) + - (3602879701896397 / 2 ^ 53)) = Fin (- (1351079888211149 / 2 ^ 52))"
    by (rule fl_round_tieI[where e = "(- 54)" and f = "-5404319552844596"]) (simp_all add: power_int_minus)
  have b16: "fsub (Fin (3602879701896397 / 2 ^ 55)) (Fin (3602879701896397 / 2 ^ 53)) = Fin (- (1351079888211149 / 2 ^ 52))"
    unfolding fsub_def fneg.simps fadd.simps by (rule b15)
  have b17: "fl_round ((- (1351079888211149 / 2 ^ 52)) + (3602879701896397 / 2 ^ 55)) = Fin (- (7205759403792795 / 2 ^ 55))"
    by (rule fl_roundI[where e = "(- 55)" and m = "-7205759403792795"]) (simp_all add: power_int_minus)
  have b18: "fadd (Fin (- (1351079888211149 / 2 ^ 52))) (Fin (3602879701896397 / 2 ^ 55)) = Fin (- (7205759403792795 / 2 ^ 55))"
    unfolding fadd.simps by (rule b17)
  have b19: "fl_round ((1 / 2 ^ 1) * (- (7205759403792795 / 2 ^ 55))) = Fin (- (7205759403792795 / 2 ^ 56))"
    by (rule fl_roundI[where e = "(- 56)" and m = "-7205759403792795"]) (simp_all add: power_int_minus)
  have b20: "fmul (Fin (1 / 2 ^ 1)) (Fin (- (7205759403792795 / 2 ^ 55))) = Fin (- (7205759403792795 / 2 ^ 56))"
    unfolding fmul.simps by (rule b19)
  have b21: "fl_round ((3602879701896397 / 2 ^ 54) + (- (7205759403792795 / 2 ^ 56))) = Fin (7205759403792793 / 2 ^ 56)"
    by (rule fl_roundI[where e = "(- 56)" and m = "7205759403792793"]) (simp_all add: power_int_minus)
  have b22: "fadd (Fin (3602879701896397 / 2 ^ 54)) (Fin (- (7205759403792795 / 2 ^ 56))) = Fin (7205759403792793 / 2 ^ 56)"
    unfolding fadd.simps by (rule b21)
  have i: "(3::int) - 1 = 2" by simp
  have p: "fl_round (1 / 10) = Fin (3602879701896397 / 2 ^ 55)"
    by (rule fl_roundI[where e = "(- 56)" and m = "7205759403792794"]) (simp_all add: power_int_minus)
  have q: "fl_round (2 / 10) = Fin (3602879701896397 / 2 ^ 54)"
    by (rule fl_roundI[where e = "(- 55)" and m = "7205759403792794"]) (simp_all add: power_int_minus)
  have s: "scalars_fr 3 1 (Fin 1) (Fin 1) (Fin (1 / 2 ^ 3)) = Inr (Fin (1 / 2 ^ 1), Fin 1)"
    by (simp only: scalars_fr_def i b3 b6 b8 b10 b12 sum.case prod.case)
  have r: "explicit_heat_fl [Fin (3602879701896397 / 2 ^ 55), Fin (3602879701896397 / 2 ^ 54), Fin (3602879701896397 / 2 ^ 55)] 3 1 (Fin 1) (Fin 1) (Fin (1 / 2 ^ 3))
       (Fin (3602879701896397 / 2 ^ 55)) (Fin (3602879701896397 / 2 ^ 55)) =
     Inr ([[Fin (3602879701896397 / 2 ^ 55), Fin (3602879701896397 / 2 ^ 54), Fin (3602879701896397 / 2 ^ 55)],
           [Fin (3602879701896397 / 2 ^ 55), Fin (7205759403792793 / 2 ^ 56), Fin (3602879701896397 / 2 ^ 55)]],
          Fin (1 / 2 ^ 1), Fin 1)"
    by (simp only: explicit_heat_fl_one_step[OF s] b14 b16 b18 b20 b22)
  have l: "(7205759403792793 / 2 ^ 56 :: real) < 3602879701896397 / 2 ^ 55" by simp
  show ?thesis using p q s r l by (intro conjI)
qed

lemma fetch1_Arr1: "a < length h \<Longrightarrow> h ! a = Arr1 xs \<Longrightarrow> fetch1 h a = Inr xs"
  by (simp add: fetch1_def)

lemma fetch2_Arr2: "a < length h \<Longrightarrow> h ! a = Arr2 M \<Longrightarrow> fetch2 h a = Inr M"
  by (simp add: fetch2_def)

lemma copy1_Arr1:
  "a < length h \<Longrightarrow> h ! a = Arr1 xs \<Longrightarrow> copy1 h a = Inr (h @ [Arr1 xs], length h)"
  by (simp add: copy1_def fetch1_Arr1 alloc_def)

lemma step_st_sim:
  assumes "u < length h" "h ! u = Arr1 U"
  shows "step_st alpha U1 U2 h u =
         (case step_fr alpha U1 U2 U of
            Inl e \<Rightarrow> Inl e
          | Inr V \<Rightarrow> Inr (h @ [Arr1 V], length h))"
proof -
  let ?h1 = "h @ [Arr1 U]"
  let ?W = "set_mid U (stencil alpha U)"
  have c: "copy1 h u = Inr (?h1, length h)" using assms by (rule copy1_Arr1)
  have f1: "fetch1 ?h1 u = Inr U"
    using assms by (intro fetch1_Arr1) (simp_all add: nth_append)
  have f2: "fetch1 ?h1 (length h) = Inr U"
    by (intro fetch1_Arr1) simp_all
  have h2: "?h1[length h := Arr1 ?W] = h @ [Arr1 ?W]" by simp
  have f3: "fetch1 (h @ [Arr1 ?W]) (length h) = Inr ?W"
    by (intro fetch1_Arr1) simp_all
  have h3: "(h @ [Arr1 ?W])[length h := Arr1 V] = h @ [Arr1 V]" for V by simp
  show ?thesis
    unfolding step_st_def c
    by (simp add: f1 f2 h2 f3 h3 step_fr_def Let_def split: sum.splits)
qed

lemma store_row_sim:
  assumes "ua < length h" "h ! ua = Arr2 M" "v < length h" "h ! v = Arr1 V"
  shows "store_row h ua i v =
         (case assign_row M i V of
            Inl e \<Rightarrow> Inl e
          | Inr M' \<Rightarrow> Inr (h[ua := Arr2 M']))"
  using assms by (simp add: store_row_def fetch1_Arr1 fetch2_Arr2)

lemma loop_st_sim:
  assumes "u < length h" "h ! u = Arr1 U" "ua < length h" "h ! ua = Arr2 M"
  shows "sim_result h ua (loop_fr ns alpha U1 U2 (U, M)) (loop_st ns alpha U1 U2 ua (h, u))"
  using assms
proof (induction ns arbitrary: h u U M)
  case Nil
  then show ?case by (simp add: sim_result_def)
next
  case (Cons n ns)
  show ?case
  proof (cases "step_fr alpha U1 U2 U")
    case (Inl e)
    then show ?thesis
      using step_st_sim[OF Cons.prems(1,2), of alpha U1 U2] by (simp add: sim_result_def)
  next
    case (Inr V)
    let ?h1 = "h @ [Arr1 V]"
    have st: "step_st alpha U1 U2 h u = Inr (?h1, length h)"
      using step_st_sim[OF Cons.prems(1,2), of alpha U1 U2] Inr by simp
    have ua1: "ua < length ?h1" "?h1 ! ua = Arr2 M"
      using Cons.prems(3,4) by (simp_all add: nth_append)
    have v1: "length h < length ?h1" "?h1 ! length h = Arr1 V" by simp_all
    note sr = store_row_sim[OF ua1 v1, of "n + 1"]
    show ?thesis
    proof (cases "assign_row M (n + 1) V")
      case (Inl e)
      then show ?thesis using Inr st sr by (simp add: sim_result_def)
    next
      case (Inr M')
      let ?h2 = "?h1[ua := Arr2 M']"
      have row: "store_row ?h1 ua (n + 1) (length h) = Inr ?h2" using sr Inr by simp
      have p: "length h < length ?h2" "?h2 ! length h = Arr1 V" "ua < length ?h2"
        "?h2 ! ua = Arr2 M'"
        using Cons.prems(3) by (simp_all add: nth_append nth_list_update)
      have IH: "sim_result ?h2 ua (loop_fr ns alpha U1 U2 (V, M'))
                  (loop_st ns alpha U1 U2 ua (?h2, length h))"
        by (rule Cons.IH[OF p])
      have lf: "loop_fr (n # ns) alpha U1 U2 (U, M) = loop_fr ns alpha U1 U2 (V, M')"
        using \<open>step_fr alpha U1 U2 U = Inr V\<close> Inr by simp
      have ls: "loop_st (n # ns) alpha U1 U2 ua (h, u) = loop_st ns alpha U1 U2 ua (?h2, length h)"
        using st row by simp
      have keep: "?h2 ! b = h ! b" if "b < length h" "b \<noteq> ua" for b
        using that by (simp add: nth_append nth_list_update)
      show ?thesis
        unfolding lf ls using IH keep
        by (auto simp: sim_result_def split: sum.splits prod.splits)
    qed
  qed
qed

lemma explicit_heat_st_sim:
  assumes "a < length h" "h ! a = Arr1 U_init"
  shows "case explicit_heat U_init Nx Nt L T D U1 U2 of
           Inl e \<Rightarrow> explicit_heat_st h a Nx Nt L T D U1 U2 = Inl e
         | Inr (F, alpha, dt) \<Rightarrow>
             (\<exists>h'. explicit_heat_st h a Nx Nt L T D U1 U2 = Inr (h', length h, alpha, dt) \<and>
                   h' ! length h = Arr2 F \<and> length h < length h' \<and>
                   (\<forall>b<length h. h' ! b = h ! b))"
proof (cases "py_div L (real_of_int (Nx - 1))")
  case (Inl e)
  then show ?thesis by (simp add: explicit_heat_def explicit_heat_st_def)
next
  case dx: (Inr dx)
  show ?thesis
  proof (cases "py_div T (real_of_int Nt)")
    case (Inl e)
    then show ?thesis using dx by (simp add: explicit_heat_def explicit_heat_st_def)
  next
    case dt: (Inr dt)
    show ?thesis
    proof (cases "py_div (D * dt) (dx ^ 2)")
      case (Inl e)
      then show ?thesis using dx dt by (simp add: explicit_heat_def explicit_heat_st_def)
    next
      case al: (Inr alpha)
      show ?thesis
      proof (cases "np_zeros (Nt + 1) Nx")
        case (Inl e)
        then show ?thesis using dx dt al by (simp add: explicit_heat_def explicit_heat_st_def)
      next
        case z: (Inr Z)
        let ?h1 = "h @ [Arr2 Z]"
        let ?h2 = "?h1 @ [Arr1 U_init]"
        have a1: "a < length ?h1" "?h1 ! a = Arr1 U_init"
          using assms by (simp_all add: nth_append)
        have c1: "copy1 ?h1 a = Inr (?h2, length ?h1)" using a1 by (rule copy1_Arr1)
        have ua2: "length h < length ?h2" "?h2 ! length h = Arr2 Z"
          by (simp_all add: nth_append)
        have t2: "length ?h1 < length ?h2" "?h2 ! length ?h1 = Arr1 U_init"
          by (simp_all add: nth_append)
        note sr = store_row_sim[OF ua2 t2, of 0]
        show ?thesis
        proof (cases "assign_row Z 0 U_init")
          case (Inl e)
          then show ?thesis
            using dx dt al z c1 sr
            by (simp add: explicit_heat_def explicit_heat_st_def alloc_def)
        next
          case r0: (Inr M0)
          let ?h3 = "?h2[length h := Arr2 M0]"
          let ?h4 = "?h3 @ [Arr1 U_init]"
          have row: "store_row ?h2 (length h) 0 (length ?h1) = Inr ?h3" using sr r0 by simp
          have a3: "a < length ?h3" "?h3 ! a = Arr1 U_init"
            using assms by (simp_all add: nth_append nth_list_update)
          have c3: "copy1 ?h3 a = Inr (?h4, length ?h3)" using a3 by (rule copy1_Arr1)
          have p: "length ?h3 < length ?h4" "?h4 ! length ?h3 = Arr1 U_init"
            "length h < length ?h4" "?h4 ! length h = Arr2 M0"
            by (simp_all add: nth_append nth_list_update)
          have sim: "sim_result ?h4 (length h) (loop_fr [0..<nat Nt] alpha U1 U2 (U_init, M0))
                       (loop_st [0..<nat Nt] alpha U1 U2 (length h) (?h4, length ?h3))"
            by (rule loop_st_sim[OF p])
          have st: "explicit_heat_st h a Nx Nt L T D U1 U2 =
                    (case loop_st [0..<nat Nt] alpha U1 U2 (length h) (?h4, length ?h3) of
                       Inl e \<Rightarrow> Inl e
                     | Inr (h5, u') \<Rightarrow> Inr (h5, length h, alpha, dt))"
            using dx dt al z c1 row c3 by (simp add: explicit_heat_st_def alloc_def)
          have pu: "explicit_heat U_init Nx Nt L T D U1 U2 =
                    (case loop_fr [0..<nat Nt] alpha U1 U2 (U_init, M0) of
                       Inl e \<Rightarrow> Inl e
                     | Inr (U, U_all) \<Rightarrow> Inr (U_all, alpha, dt))"
            using dx dt al z r0 by (simp add: explicit_heat_def)
          have keep: "?h4 ! b = h ! b" if "b < length h" for b
            using that by (simp add: nth_append nth_list_update)
          show ?thesis
          proof (cases "loop_fr [0..<nat Nt] alpha U1 U2 (U_init, M0)")
            case (Inl e)
            then show ?thesis using sim st pu by (simp add: sim_result_def)
          next
            case (Inr res)
            obtain U' M' where res: "res = (U', M')" by (cases res)
            from sim Inr res obtain h' u' where
              l: "loop_st [0..<nat Nt] alpha U1 U2 (length h) (?h4, length ?h3) = Inr (h', u')"
              and M': "h' ! length h = Arr2 M'" and len: "length ?h4 \<le> length h'"
              and same: "\<forall>b<length ?h4. b \<noteq> length h \<longrightarrow> h' ! b = ?h4 ! b"
              by (auto simp: sim_result_def)
            have "h' ! b = h ! b" if "b < length h" for b
            proof -
              have "b < length ?h4" "b \<noteq> length h" using that by simp_all
              then have "h' ! b = ?h4 ! b" using same by blast
              then show ?thesis using keep[OF that] by simp
            qed
            moreover have "length h < length h'" using len by simp
            ultimately show ?thesis
              using Inr res l M' st pu by simp
          qed
        qed
      qed
    qed
  qed
qed

text \<open>
  Claim C8. \<open>explicit_heat\<close> never modifies the array passed to it as \<open>U_init\<close>: whenever a
  call returns, the object at the argument's address holds the same elements as before
  the call. No object that existed before the call is changed, and the object returned
  for \<open>U_all\<close> is a new one holding the field.
\<close>

theorem input_unchanged:
  assumes "a < length h" "h ! a = Arr1 U_init"
    and "explicit_heat_st h a Nx Nt L T D U1 U2 = Inr (h', ua, alpha, dt)"
  shows "h' ! a = Arr1 U_init \<and> (\<forall>b<length h. h' ! b = h ! b) \<and> ua = length h \<and>
         h' ! ua = Arr2 (field_fr (explicit_heat U_init Nx Nt L T D U1 U2))"
proof (cases "explicit_heat U_init Nx Nt L T D U1 U2")
  case (Inl e)
  then show ?thesis
    using explicit_heat_st_sim[OF assms(1,2), of Nx Nt L T D U1 U2] assms(3) by simp
next
  case (Inr res)
  obtain F al d where res: "res = (F, al, d)" by (cases res)
  from explicit_heat_st_sim[OF assms(1,2), of Nx Nt L T D U1 U2] Inr res assms(3)
  have "h' ! length h = Arr2 F" "\<forall>b<length h. h' ! b = h ! b" "ua = length h"
    by auto
  then show ?thesis using assms(1,2) Inr res by (simp add: field_fr_def)
qed

theorem input_unchanged_witness:
  "explicit_heat_st [Arr1 [19, 10, 1]] 0 3 1 1 1 (1 / 20) 20 0 =
     Inr ([Arr1 [19, 10, 1], Arr2 [[19, 10, 1], [20, 10, 0]], Arr1 [19, 10, 1],
           Arr1 [19, 10, 1], Arr1 [20, 10, 0]], 1, 1 / 5, 1) \<and>
   [Arr1 [19, 10, 1], Arr2 [[19, 10, 1], [20, 10, 0]], Arr1 [19, 10, 1],
    Arr1 [19, 10, 1], Arr1 [20, 10, 0]] ! 0 = Arr1 [19, 10, 1]"
proof -
  have run: "explicit_heat_st [Arr1 [19, 10, 1]] 0 3 1 1 1 (1 / 20) 20 0 =
     Inr ([Arr1 [19, 10, 1], Arr2 [[19, 10, 1], [20, 10, 0]], Arr1 [19, 10, 1],
           Arr1 [19, 10, 1], Arr1 [20, 10, 0]], 1, 1 / 5, 1)"
    by (simp add: explicit_heat_st_def py_div_def np_zeros_def alloc_def copy1_def fetch1_def
        fetch2_def store_row_def assign_row_def step_st_def set_ends_def set_mid_def
        stencil_def mid_def vadd_def vsub_def smul_def Let_def power2_eq_square
        numeral_2_eq_2 numeral_3_eq_3)
  have h: "0 < length [Arr1 [19, 10, 1]]" "[Arr1 [19, 10, 1]] ! 0 = Arr1 [19, 10, 1]"
    by simp_all
  from input_unchanged[OF h run] show ?thesis using run by simp
qed

text \<open>
  Claim C10 fails on the code. In double precision, for \<open>L = 1.0\<close>, \<open>T = 1.0\<close>,
  \<open>D = 0.05\<close>, \<open>Nx = 70\<close> and \<open>Nt = 100\<close>, \<open>analyze_stability\<close> finds the ratio \<open>2.45\<close>
  and prints the step count \<open>490\<close> as required for stability: the product
  \<open>2 * D * T * Nx**2\<close> rounds to \<open>490.0\<close>. Called with \<open>Nt = 490\<close> it computes the ratio
  \<open>0.5 + 2\<^sup>-\<^sup>5\<^sup>3\<close>, which is above \<open>0.5\<close>: it reports unstable and prints \<open>490\<close> again.
  \<open>check_stability\<close> computes the same ratio.
\<close>

theorem recommended_steps_unstable:
  "fl_round (5 / 100) = Fin (3602879701896397 / 2 ^ 56) \<and>
   analyze_stability (Fin 1) (Fin 1) (Fin (3602879701896397 / 2 ^ 56)) 100 70 = Inr (False, Some 490) \<and>
   analyze_stability (Fin 1) (Fin 1) (Fin (3602879701896397 / 2 ^ 56)) 490 70 = Inr (False, Some 490) \<and>
   check_stability_fl (Fin (3602879701896397 / 2 ^ 56)) (Fin 1) 490 70 (Fin 1) = Inr (False, Fin (4503599627370497 / 2 ^ 53)) \<and>
   (5 / 10 :: real) < 4503599627370497 / 2 ^ 53"
proof -
  have a1: "fl_round (real_of_int 100) = Fin 100"
    by (rule fl_roundI[where e = "(- 46)" and m = "7036874417766400"]) (simp_all add: power_int_minus)
  have a2: "fl_round (1 / 100) = Fin (5764607523034235 / 2 ^ 59)"
    by (rule fl_roundI[where e = "(- 59)" and m = "5764607523034235"]) (simp_all add: power_int_minus)
  have a3: "py_fdiv_int (Fin 1) 100 = Inr (Fin (5764607523034235 / 2 ^ 59))"
    by (rule py_fdiv_int_Fin[OF a1 _ a2]) simp
  have a4: "fl_round (real_of_int 70) = Fin 70"
    by (rule fl_roundI[where e = "(- 46)" and m = "4925812092436480"]) (simp_all add: power_int_minus)
  have a5: "fl_round (1 / 70) = Fin (8235153604334621 / 2 ^ 59)"
    by (rule fl_roundI[where e = "(- 59)" and m = "8235153604334621"]) (simp_all add: power_int_minus)
  have a6: "py_fdiv_int (Fin 1) 70 = Inr (Fin (8235153604334621 / 2 ^ 59))"
    by (rule py_fdiv_int_Fin[OF a4 _ a5]) simp
  have a7: "fl_round ((8235153604334621 / 2 ^ 59) * (8235153604334621 / 2 ^ 59)) = Fin (7529283295391653 / 2 ^ 65)"
    by (rule fl_roundI[where e = "(- 65)" and m = "7529283295391653"]) (simp_all add: power_int_minus)
  have a8: "py_fpow2 (Fin (8235153604334621 / 2 ^ 59)) = Inr (Fin (7529283295391653 / 2 ^ 65))"
    by (rule py_fpow2_Fin[OF a7])
  have a9: "fl_round ((3602879701896397 / 2 ^ 56) * (5764607523034235 / 2 ^ 59)) = Fin (1152921504606847 / 2 ^ 61)"
    by (rule fl_roundI[where e = "(- 63)" and m = "4611686018427388"]) (simp_all add: power_int_minus)
  have a10: "fmul (Fin (3602879701896397 / 2 ^ 56)) (Fin (5764607523034235 / 2 ^ 59)) = Fin (1152921504606847 / 2 ^ 61)"
    unfolding fmul.simps by (rule a9)
  have a11: "fl_round ((1152921504606847 / 2 ^ 61) / (7529283295391653 / 2 ^ 65)) = Fin (2758454771764429 / 2 ^ 50)"
    by (rule fl_roundI[where e = "(- 51)" and m = "5516909543528858"]) (simp_all add: power_int_minus)
  have a12: "py_fdiv (Fin (1152921504606847 / 2 ^ 61)) (Fin (7529283295391653 / 2 ^ 65)) = Inr (Fin (2758454771764429 / 2 ^ 50))"
    by (rule py_fdiv_Fin[OF _ a11]) simp
  have a13: "flt (Fin (5 / 10)) (Fin (2758454771764429 / 2 ^ 50)) = True"
    by simp
  have a14: "fle (Fin (2758454771764429 / 2 ^ 50)) (Fin (5 / 10)) = False"
    by simp
  have a15: "fl_round (real_of_int (70 ^ 2)) = Fin 4900"
    by (rule fl_roundI[where e = "(- 40)" and m = "5387606976102400"]) (simp_all add: power_int_minus)
  have a16: "py_float_of_int (70 ^ 2) = Inr (Fin 4900)"
    by (rule py_float_of_int_Fin[OF a15])
  have a17: "fl_round (1 * 1) = Fin 1"
    by (rule fl_roundI[where e = "(- 52)" and m = "4503599627370496"]) (simp_all add: power_int_minus)
  have a18: "py_fpow2 (Fin 1) = Inr (Fin 1)"
    by (rule py_fpow2_Fin[OF a17])
  have a19: "fl_round (2 * (3602879701896397 / 2 ^ 56)) = Fin (3602879701896397 / 2 ^ 55)"
    by (rule fl_roundI[where e = "(- 56)" and m = "7205759403792794"]) (simp_all add: power_int_minus)
  have a20: "fmul (Fin 2) (Fin (3602879701896397 / 2 ^ 56)) = Fin (3602879701896397 / 2 ^ 55)"
    unfolding fmul.simps by (rule a19)
  have a21: "fl_round ((3602879701896397 / 2 ^ 55) * 1) = Fin (3602879701896397 / 2 ^ 55)"
    by (rule fl_roundI[where e = "(- 56)" and m = "7205759403792794"]) (simp_all add: power_int_minus)
  have a22: "fmul (Fin (3602879701896397 / 2 ^ 55)) (Fin 1) = Fin (3602879701896397 / 2 ^ 55)"
    unfolding fmul.simps by (rule a21)
  have a23: "fl_round ((3602879701896397 / 2 ^ 55) * 4900) = Fin 490"
    by (rule fl_roundI[where e = "(- 44)" and m = "8620171161763840"]) (simp_all add: power_int_minus)
  have a24: "fmul (Fin (3602879701896397 / 2 ^ 55)) (Fin 4900) = Fin 490"
    unfolding fmul.simps by (rule a23)
  have a25: "fl_round (490 / 1) = Fin 490"
    by (rule fl_roundI[where e = "(- 44)" and m = "8620171161763840"]) (simp_all add: power_int_minus)
  have a26: "py_fdiv (Fin 490) (Fin 1) = Inr (Fin 490)"
    by (rule py_fdiv_Fin[OF _ a25]) simp
  have a27: "fl_round (real_of_int 490) = Fin 490"
    by (rule fl_roundI[where e = "(- 44)" and m = "8620171161763840"]) (simp_all add: power_int_minus)
  have a28: "fl_round (1 / 490) = Fin (588225257452473 / 2 ^ 58)"
    by (rule fl_roundI[where e = "(- 61)" and m = "4705802059619784"]) (simp_all add: power_int_minus)
  have a29: "py_fdiv_int (Fin 1) 490 = Inr (Fin (588225257452473 / 2 ^ 58))"
    by (rule py_fdiv_int_Fin[OF a27 _ a28]) simp
  have a30: "py_fdiv_int (Fin 1) 70 = Inr (Fin (8235153604334621 / 2 ^ 59))"
    by (rule py_fdiv_int_Fin[OF a4 _ a5]) simp
  have a31: "py_fpow2 (Fin (8235153604334621 / 2 ^ 59)) = Inr (Fin (7529283295391653 / 2 ^ 65))"
    by (rule py_fpow2_Fin[OF a7])
  have a32: "fl_round ((3602879701896397 / 2 ^ 56) * (588225257452473 / 2 ^ 58)) = Fin (7529283295391655 / 2 ^ 66)"
    by (rule fl_roundI[where e = "(- 66)" and m = "7529283295391655"]) (simp_all add: power_int_minus)
  have a33: "fmul (Fin (3602879701896397 / 2 ^ 56)) (Fin (588225257452473 / 2 ^ 58)) = Fin (7529283295391655 / 2 ^ 66)"
    unfolding fmul.simps by (rule a32)
  have a34: "fl_round ((7529283295391655 / 2 ^ 66) / (7529283295391653 / 2 ^ 65)) = Fin (4503599627370497 / 2 ^ 53)"
    by (rule fl_roundI[where e = "(- 53)" and m = "4503599627370497"]) (simp_all add: power_int_minus)
  have a35: "py_fdiv (Fin (7529283295391655 / 2 ^ 66)) (Fin (7529283295391653 / 2 ^ 65)) = Inr (Fin (4503599627370497 / 2 ^ 53))"
    by (rule py_fdiv_Fin[OF _ a34]) simp
  have a36: "flt (Fin (5 / 10)) (Fin (4503599627370497 / 2 ^ 53)) = True"
    by simp
  have a37: "fle (Fin (4503599627370497 / 2 ^ 53)) (Fin (5 / 10)) = False"
    by simp
  have a38: "py_float_of_int (70 ^ 2) = Inr (Fin 4900)"
    by (rule py_float_of_int_Fin[OF a15])
  have a39: "py_fpow2 (Fin 1) = Inr (Fin 1)"
    by (rule py_fpow2_Fin[OF a17])
  have a40: "fmul (Fin 2) (Fin (3602879701896397 / 2 ^ 56)) = Fin (3602879701896397 / 2 ^ 55)"
    unfolding fmul.simps by (rule a19)
  have a41: "fmul (Fin (3602879701896397 / 2 ^ 55)) (Fin 1) = Fin (3602879701896397 / 2 ^ 55)"
    unfolding fmul.simps by (rule a21)
  have a42: "fmul (Fin (3602879701896397 / 2 ^ 55)) (Fin 4900) = Fin 490"
    unfolding fmul.simps by (rule a23)
  have a43: "py_fdiv (Fin 490) (Fin 1) = Inr (Fin 490)"
    by (rule py_fdiv_Fin[OF _ a25]) simp
  have c: "\<lceil>490 :: real\<rceil> = 490" by simp
  have d: "fl_round (5 / 100) = Fin (3602879701896397 / 2 ^ 56)"
    by (rule fl_roundI[where e = "(- 57)" and m = "7205759403792794"]) (simp_all add: power_int_minus)
  have r1: "analyze_stability (Fin 1) (Fin 1) (Fin (3602879701896397 / 2 ^ 56)) 100 70 = Inr (False, Some 490)"
    by (simp only: analyze_stability_def a3 a6 a8 a10 a12 a13 a14 a16 a18 a20 a22 a24 a26 a29 a30 a31 a33 a35 a36 a37 a38 a39 a40 a41 a42 a43 py_ceil_int_Fin c
        sum.case prod.case if_True if_False)
  have r2: "analyze_stability (Fin 1) (Fin 1) (Fin (3602879701896397 / 2 ^ 56)) 490 70 = Inr (False, Some 490)"
    by (simp only: analyze_stability_def a3 a6 a8 a10 a12 a13 a14 a16 a18 a20 a22 a24 a26 a29 a30 a31 a33 a35 a36 a37 a38 a39 a40 a41 a42 a43 py_ceil_int_Fin c
        sum.case prod.case if_True if_False)
  have r3: "check_stability_fl (Fin (3602879701896397 / 2 ^ 56)) (Fin 1) 490 70 (Fin 1) = Inr (False, Fin (4503599627370497 / 2 ^ 53))"
    by (simp only: check_stability_fl_def a3 a6 a8 a10 a12 a13 a14 a16 a18 a20 a22 a24 a26 a29 a30 a31 a33 a35 a36 a37 a38 a39 a40 a41 a42 a43 sum.case prod.case if_True if_False)
  have r4: "(5 / 10 :: real) < 4503599627370497 / 2 ^ 53" by simp
  show ?thesis using d r1 r2 r3 r4 by (intro conjI)
qed

end
